theory Spec2Isabelle
  imports Main "HOL-Library.Char_ord" "HOL-Library.List_Lexorder"
begin

section \<open>TimeZap: data model\<close>

text \<open>
  The persisted aggregation data is a JavaScript object tree
  \<^verbatim>\<open>data.workspaceFolders[workspaceKey].dates[day] = { totalSeconds, byFile, byFolder }\<close>.
  An object with string keys is modelled as the association list of its own properties in
  insertion order, read through \<open>getProp\<close> (the first binding of a key) and written
  through \<open>setProp\<close> (replace the binding in place, or append a new one). Counts of
  seconds and millisecond timestamps are integers.

  The objects are plain objects, so a key that is not an own property is looked up in
  \<^verbatim>\<open>Object.prototype\<close>. This matters where the user's files choose the key: in
  \<open>byFile\<close> and \<open>byFolder\<close> (see \<open>addTo\<close>), whose values are numbers or, after such
  a lookup, strings. A workspace key is a URI with a scheme or \<^verbatim>\<open>'untitled'\<close> (see
  \<open>onActivityForEditor\<close>) and a day key is a date that starts with a digit or a sign:
  neither names a property of \<^verbatim>\<open>Object.prototype\<close>, and the own properties are all that
  a lookup of one of them finds. Keys that are array indices (a folder named
  \<^verbatim>\<open>2024\<close>) are listed by ECMAScript before the other keys; the lists here keep them
  where they were inserted, and what is proved below reads objects by key.

  A day bucket has its three fields, as every bucket that \<^verbatim>\<open>onTick\<close> creates has. Loaded
  data in which a bucket lacks \<open>byFile\<close> or \<open>byFolder\<close> (\<^verbatim>\<open>onTick\<close> then throws a
  \<^verbatim>\<open>TypeError\<close> after it has added to \<open>totalSeconds\<close>) is outside the model.
\<close>

type_synonym 'v obj = "(string \<times> 'v) list"

definition getProp :: "'v obj \<Rightarrow> string \<Rightarrow> 'v option" where
  "getProp ob k = map_of ob k"

fun setProp :: "string \<Rightarrow> 'v \<Rightarrow> 'v obj \<Rightarrow> 'v obj" where
  "setProp k v [] = [(k, v)]"
| "setProp k v (p # ps) = (if fst p = k then (k, v) # ps else p # setProp k v ps)"

datatype jsval = Num int | Text string

record DayBucket =
  totalSeconds :: int
  byFile :: "jsval obj"
  byFolder :: "jsval obj"

record WorkspaceMeta =
  path :: string

record WorkspaceEntry =
  meta :: WorkspaceMeta
  dates :: "DayBucket obj option"

record PersistedData =
  workspaceFolders :: "WorkspaceEntry obj option"

datatype AggregateBy = Folder | File

record TimeServiceConfig =
  idleTimeoutSeconds :: int
  persistIntervalSeconds :: int
  aggregateBy :: AggregateBy
  autoStart :: bool

text \<open>
  \<^verbatim>\<open>Partial<TimeServiceConfig>\<close>: every field may be absent (\<open>None\<close>) or given with a
  value. A field given explicitly as \<^verbatim>\<open>undefined\<close>, which the spread in the constructor
  would copy over the default, has no counterpart here; the extension constructs the
  service without a config.
\<close>

record PartialConfig =
  p_idleTimeoutSeconds :: "int option"
  p_persistIntervalSeconds :: "int option"
  p_aggregateBy :: "AggregateBy option"
  p_autoStart :: "bool option"

text \<open>The payloads the service emits on its \<^verbatim>\<open>'update'\<close> channel.\<close>

datatype UpdateEvent =
    EvLoaded
  | EvRunning bool
  | EvActiveFile "string option" "string option"
  | EvIdle bool
  | EvTick string string int int

text \<open>
  The runtime state of \<^verbatim>\<open>TimeService\<close>. \<open>tickTimer\<close> and \<open>persistTimer\<close> hold the
  period in milliseconds of the interval timer that is installed (\<open>None\<close> is
  \<^verbatim>\<open>undefined\<close>); \<open>disposables\<close> counts the attached editor listeners.
\<close>

record TimeService =
  config :: TimeServiceConfig
  running :: bool
  data :: PersistedData
  lastActivity :: int
  lastTick :: int
  activeFile :: "string option"
  activeWorkspace :: "string option"
  idle :: bool
  tickTimer :: "int option"
  persistTimer :: "int option"
  disposables :: nat

text \<open>
  What the host supplies to the folder-key computation: Node's \<^verbatim>\<open>path.relative\<close> and
  \<^verbatim>\<open>path.sep\<close>, and \<^verbatim>\<open>vscode.Uri.parse(_).fsPath\<close>. \<open>None\<close> is a thrown exception.
\<close>

record PathHost =
  relative :: "string \<Rightarrow> string \<Rightarrow> string option"
  uriFsPath :: "string \<Rightarrow> string option"
  sep :: char

section \<open>Calendar day keys\<close>

text \<open>
  \<^verbatim>\<open>dateKeyFor(ts) = new Date(ts).toISOString().slice(0, 10)\<close>: the UTC calendar date of
  the instant \<open>ts\<close> (milliseconds since the epoch). The civil date of a day number
  (days since 1970-01-01) is computed in the proleptic Gregorian calendar, as ECMAScript's
  \<^verbatim>\<open>YearFromTime\<close>, \<^verbatim>\<open>MonthFromTime\<close> and \<^verbatim>\<open>DateFromTime\<close> define it; a year outside
  0 to 9999 is written with a sign and six digits.
\<close>

definition msPerDay :: int where
  "msPerDay = 86400000"

definition civilFromDays :: "int \<Rightarrow> int \<times> int \<times> int" where
  "civilFromDays z0 =
     (let z = z0 + 719468;
          era = z div 146097;
          doe = z mod 146097;
          yoe = (doe - doe div 1460 + doe div 36524 - doe div 146096) div 365;
          doy = doe - (365 * yoe + yoe div 4 - yoe div 100);
          mp = (5 * doy + 2) div 153;
          d = doy - (153 * mp + 2) div 5 + 1;
          m = (if mp < 10 then mp + 3 else mp - 9);
          y = yoe + era * 400
      in (if m \<le> 2 then y + 1 else y, m, d))"

text \<open>Decimal digits, as \<^verbatim>\<open>String(n)\<close> prints a non-negative integer.\<close>

definition digitChar :: "nat \<Rightarrow> char" where
  "digitChar n = ''0123456789'' ! n"

fun decimal :: "nat \<Rightarrow> string" where
  "decimal n = (if n < 10 then [digitChar n] else decimal (n div 10) @ [digitChar (n mod 10)])"

declare decimal.simps [simp del]

text \<open>\<^verbatim>\<open>String(n)\<close> of a whole number.\<close>

definition showInt :: "int \<Rightarrow> string" where
  "showInt n = (if n < 0 then ''-'' @ decimal (nat (- n)) else decimal (nat n))"

definition padStart :: "nat \<Rightarrow> string \<Rightarrow> string" where
  "padStart w s = replicate (w - length s) (CHR ''0'') @ s"

definition yearString :: "int \<Rightarrow> string" where
  "yearString y =
     (if 0 \<le> y \<and> y \<le> 9999 then padStart 4 (decimal (nat y))
      else (if y < 0 then ''-'' else ''+'') @ padStart 6 (decimal (nat \<bar>y\<bar>)))"

definition isoDate :: "int \<Rightarrow> string" where
  "isoDate dayNumber =
     (let (y, m, d) = civilFromDays dayNumber
      in yearString y @ ''-'' @ padStart 2 (decimal (nat m)) @ ''-'' @ padStart 2 (decimal (nat d)))"

definition toISOString :: "int \<Rightarrow> string" where
  "toISOString ts =
     (let t = ts mod msPerDay
      in isoDate (ts div msPerDay)
         @ ''T'' @ padStart 2 (decimal (nat (t div 3600000)))
         @ '':'' @ padStart 2 (decimal (nat (t mod 3600000 div 60000)))
         @ '':'' @ padStart 2 (decimal (nat (t mod 60000 div 1000)))
         @ ''.'' @ padStart 3 (decimal (nat (t mod 1000))) @ ''Z'')"

definition dateKeyFor :: "int \<Rightarrow> string" where
  "dateKeyFor ts = take 10 (toISOString ts)"


definition isDigit :: "char \<Rightarrow> bool" where
  "isDigit c = (48 \<le> (of_char c :: nat) \<and> (of_char c :: nat) \<le> 57)"



section \<open>TimeService\<close>

text \<open>
  The constructor's configuration, \<^verbatim>\<open>{ ...defaults, ...config }\<close>: the defaults, overridden
  by the fields that are given.
\<close>

definition defaultConfig :: TimeServiceConfig where
  "defaultConfig =
     \<lparr>idleTimeoutSeconds = 300, persistIntervalSeconds = 30, aggregateBy = Folder, autoStart = True\<rparr>"

definition mergeConfig :: "PartialConfig \<Rightarrow> TimeServiceConfig" where
  "mergeConfig p =
     \<lparr>idleTimeoutSeconds =
        (case p_idleTimeoutSeconds p of None \<Rightarrow> idleTimeoutSeconds defaultConfig | Some v \<Rightarrow> v),
      persistIntervalSeconds =
        (case p_persistIntervalSeconds p of None \<Rightarrow> persistIntervalSeconds defaultConfig | Some v \<Rightarrow> v),
      aggregateBy = (case p_aggregateBy p of None \<Rightarrow> aggregateBy defaultConfig | Some v \<Rightarrow> v),
      autoStart = (case p_autoStart p of None \<Rightarrow> autoStart defaultConfig | Some v \<Rightarrow> v)\<rparr>"

text \<open>
  \<^verbatim>\<open>new TimeService(context, storage, config?)\<close>; the two field initialisers read the clock
  (\<open>t1\<close>, \<open>t2\<close>). The data is empty until the asynchronous load resolves.
\<close>

definition newTimeService :: "PartialConfig option \<Rightarrow> int \<Rightarrow> int \<Rightarrow> TimeService" where
  "newTimeService cfg t1 t2 =
     \<lparr>config = (case cfg of None \<Rightarrow> defaultConfig | Some p \<Rightarrow> mergeConfig p),
      running = False,
      data = \<lparr>workspaceFolders = None\<rparr>,
      lastActivity = t1,
      lastTick = t2,
      activeFile = None,
      activeWorkspace = None,
      idle = False,
      tickTimer = None,
      persistTimer = None,
      disposables = 0\<rparr>"

text \<open>
  The constructor's load settling: \<open>None\<close> when it is rejected, otherwise the value it
  resolves with (\<open>None\<close> for a falsy one).
\<close>

definition onLoaded :: "PersistedData option option \<Rightarrow> TimeService \<Rightarrow> TimeService \<times> UpdateEvent list" where
  "onLoaded r s =
     (case r of
        None \<Rightarrow> (s\<lparr>data := \<lparr>workspaceFolders = None\<rparr>\<rparr>, [])
      | Some None \<Rightarrow> (s\<lparr>data := \<lparr>workspaceFolders = None\<rparr>\<rparr>, [EvLoaded])
      | Some (Some d) \<Rightarrow> (s\<lparr>data := d\<rparr>, [EvLoaded]))"

text \<open>\<^verbatim>\<open>start()\<close>: \<open>t1\<close> and \<open>t2\<close> are its two readings of \<^verbatim>\<open>Date.now()\<close>.\<close>

definition start :: "int \<Rightarrow> int \<Rightarrow> TimeService \<Rightarrow> TimeService \<times> UpdateEvent list" where
  "start t1 t2 s =
     (if running s then (s, [])
      else (s\<lparr>running := True, idle := False, lastActivity := t1, lastTick := t2,
               disposables := disposables s + 4,
               tickTimer := Some 1000,
               persistTimer := Some (persistIntervalSeconds (config s) * 1000)\<rparr>,
            [EvRunning True]))"

text \<open>\<^verbatim>\<open>markActivity()\<close>, with its two readings of the clock.\<close>

definition markActivity :: "int \<Rightarrow> int \<Rightarrow> TimeService \<Rightarrow> TimeService \<times> UpdateEvent list" where
  "markActivity t1 t2 s =
     (if idle s then (s\<lparr>lastActivity := t1, idle := False, lastTick := t2\<rparr>, [EvIdle False])
      else (s\<lparr>lastActivity := t1\<rparr>, []))"

text \<open>
  \<^verbatim>\<open>onActivityForEditor(editor)\<close>: the editor, when there is one with a document, is given
  by the document's file path and the URI of the workspace folder that contains it, if any.
\<close>

definition onActivityForEditor ::
  "(string \<times> string option) option \<Rightarrow> int \<Rightarrow> int \<Rightarrow> TimeService \<Rightarrow> TimeService \<times> UpdateEvent list" where
  "onActivityForEditor editor t1 t2 s =
     (case editor of
        None \<Rightarrow> markActivity t1 t2 (s\<lparr>activeFile := None, activeWorkspace := None\<rparr>)
      | Some (fsPath, folder) \<Rightarrow>
          (let ws = (case folder of None \<Rightarrow> ''untitled'' | Some u \<Rightarrow> u);
               (s', evs) = markActivity t1 t2 (s\<lparr>activeFile := Some fsPath, activeWorkspace := Some ws\<rparr>)
           in (s', evs @ [EvActiveFile (Some fsPath) (Some ws)])))"

text \<open>\<^verbatim>\<open>x || 'untitled'\<close> on an optional string: \<^verbatim>\<open>undefined\<close> and the empty string are falsy.\<close>

definition orUntitled :: "string option \<Rightarrow> string" where
  "orUntitled v = (case v of None \<Rightarrow> ''untitled'' | Some s \<Rightarrow> if s = [] then ''untitled'' else s)"

text \<open>\<^verbatim>\<open>str.split(sep)[0]\<close>: the text before the first separator (all of it when there is none).\<close>

fun split :: "char \<Rightarrow> string \<Rightarrow> string list" where
  "split c [] = [[]]"
| "split c (x # xs) =
     (if x = c then [] # split c xs
      else (case split c xs of [] \<Rightarrow> [[x]] | seg # segs \<Rightarrow> (x # seg) # segs))"

definition firstSegment :: "char \<Rightarrow> string \<Rightarrow> string" where
  "firstSegment c s = (case split c s of [] \<Rightarrow> [] | seg # _ \<Rightarrow> seg)"

definition startsWith :: "string \<Rightarrow> string \<Rightarrow> bool" where
  "startsWith s p = (take (length p) s = p)"

text \<open>
  The folder bucket key of \<^verbatim>\<open>onTick\<close>: the first segment of the active file's path
  relative to the workspace, \<^verbatim>\<open>'.'\<close> when that segment is empty, and the file key itself
  when the host's path functions throw.
\<close>

definition folderKeyFor :: "PathHost \<Rightarrow> string \<Rightarrow> string \<Rightarrow> string" where
  "folderKeyFor h workspaceKey fileKey =
     (case (if startsWith workspaceKey ''file://'' then uriFsPath h workspaceKey
            else Some workspaceKey) of
        None \<Rightarrow> fileKey
      | Some from \<Rightarrow>
          (case relative h from fileKey of
             None \<Rightarrow> fileKey
           | Some folderPath \<Rightarrow>
               (let seg = firstSegment (sep h) folderPath in if seg = [] then ''.'' else seg)))"

text \<open>
  \<^verbatim>\<open>ob[k] = (ob[k] || 0) + delta\<close> on a plain object, for a positive whole number
  \<open>delta\<close>. An own number gains \<open>delta\<close>. A key without an own property is looked up
  in \<^verbatim>\<open>Object.prototype\<close>: when it names one of the functions there, \<^verbatim>\<open>ob[k]\<close> is that
  function, the sum is the function's source text followed by the digits of \<open>delta\<close>,
  and this string becomes an own property; for \<^verbatim>\<open>'__proto__'\<close> the sum is a string as
  well, and the assignment goes to the setter of \<^verbatim>\<open>Object.prototype\<close>, which ignores a
  string, so the object stays as it is. Any other key without an own property starts from
  0. An own string, as an earlier such tick leaves it, gets the digits of \<open>delta\<close>
  appended; an own empty string is falsy and gives way to \<open>delta\<close>. The source text of a
  native function is the one V8 gives, the engine of the host editor.
\<close>

definition inheritedFunctionNames :: "string list" where
  "inheritedFunctionNames =
     [''constructor'', ''__defineGetter__'', ''__defineSetter__'', ''hasOwnProperty'',
      ''__lookupGetter__'', ''__lookupSetter__'', ''isPrototypeOf'', ''propertyIsEnumerable'',
      ''toString'', ''valueOf'', ''toLocaleString'']"

definition nativeSource :: "string \<Rightarrow> string" where
  "nativeSource k =
     ''function '' @ (if k = ''constructor'' then ''Object'' else k) @ ''() { [native code] }''"

definition addTo :: "string \<Rightarrow> int \<Rightarrow> jsval obj \<Rightarrow> jsval obj" where
  "addTo k delta ob =
     (case getProp ob k of
        Some (Num v) \<Rightarrow> setProp k (Num (v + delta)) ob
      | Some (Text t) \<Rightarrow> setProp k (if t = [] then Num delta else Text (t @ showInt delta)) ob
      | None \<Rightarrow>
          if k = ''__proto__'' then ob
          else if k \<in> set inheritedFunctionNames
            then setProp k (Text (nativeSource k @ showInt delta)) ob
          else setProp k (Num delta) ob)"

text \<open>
  The accumulation part of \<^verbatim>\<open>onTick\<close>: ensure the structure down to the day bucket, add
  \<open>deltaSec\<close> to its total and to one entry of \<open>byFile\<close> or of \<open>byFolder\<close>.
\<close>

definition emptyBucket :: DayBucket where
  "emptyBucket = \<lparr>totalSeconds = 0, byFile = [], byFolder = []\<rparr>"

definition bumpBucket :: "AggregateBy \<Rightarrow> string \<Rightarrow> string \<Rightarrow> int \<Rightarrow> DayBucket \<Rightarrow> DayBucket" where
  "bumpBucket agg fileKey folderKey deltaSec b =
     (let b1 = b\<lparr>totalSeconds := totalSeconds b + deltaSec\<rparr>
      in (if agg = File then b1\<lparr>byFile := addTo fileKey deltaSec (byFile b1)\<rparr>
          else b1\<lparr>byFolder := addTo folderKey deltaSec (byFolder b1)\<rparr>))"

definition accumulate ::
  "AggregateBy \<Rightarrow> string \<Rightarrow> string \<Rightarrow> string \<Rightarrow> string \<Rightarrow> int \<Rightarrow> PersistedData \<Rightarrow> PersistedData" where
  "accumulate agg workspaceKey day fileKey folderKey deltaSec d =
     (let wfs = (case workspaceFolders d of None \<Rightarrow> [] | Some w \<Rightarrow> w);
          ws = (case getProp wfs workspaceKey of
                  None \<Rightarrow> \<lparr>meta = \<lparr>path = workspaceKey\<rparr>, dates = Some []\<rparr>
                | Some w \<Rightarrow> w);
          ds = (case dates ws of None \<Rightarrow> [] | Some x \<Rightarrow> x);
          dayBucket = (case getProp ds day of None \<Rightarrow> emptyBucket | Some b \<Rightarrow> b);
          dayBucket' = bumpBucket agg fileKey folderKey deltaSec dayBucket
      in d\<lparr>workspaceFolders :=
             Some (setProp workspaceKey (ws\<lparr>dates := Some (setProp day dayBucket' ds)\<rparr>) wfs)\<rparr>)"

text \<open>
  \<^verbatim>\<open>onTick()\<close> at clock reading \<open>now\<close>: nothing when the service is not running; the idle
  branch when \<open>now - lastActivity \<ge> idleTimeoutSeconds * 1000\<close>; otherwise
  \<open>deltaSec = floor((now - lastTick) / 1000)\<close> whole seconds are accumulated, unless that
  is not positive.
\<close>

definition isIdleAt :: "int \<Rightarrow> TimeService \<Rightarrow> bool" where
  "isIdleAt now s = (now - lastActivity s \<ge> idleTimeoutSeconds (config s) * 1000)"

definition onTick :: "PathHost \<Rightarrow> int \<Rightarrow> TimeService \<Rightarrow> TimeService \<times> UpdateEvent list" where
  "onTick h now s =
     (if \<not> running s then (s, [])
      else if isIdleAt now s then
        (s\<lparr>idle := True, lastTick := now\<rparr>, if idle s then [] else [EvIdle True])
      else
        (let deltaSec = (now - lastTick s) div 1000 in
         if deltaSec \<le> 0 then (s, [])
         else
           (let workspaceKey = orUntitled (activeWorkspace s);
                fileKey = orUntitled (activeFile s);
                day = dateKeyFor now;
                folderKey = folderKeyFor h workspaceKey fileKey;
                data' = accumulate (aggregateBy (config s)) workspaceKey day fileKey folderKey
                          deltaSec (data s);
                total = (case getProp (case workspaceFolders data' of None \<Rightarrow> [] | Some w \<Rightarrow> w)
                                workspaceKey of
                           None \<Rightarrow> 0
                         | Some w \<Rightarrow>
                             (case getProp (case dates w of None \<Rightarrow> [] | Some x \<Rightarrow> x) day of
                                None \<Rightarrow> 0 | Some b \<Rightarrow> totalSeconds b))
            in (s\<lparr>lastTick := now, data := data'\<rparr>, [EvTick workspaceKey day deltaSec total]))))"

section \<open>Observations on the data\<close>

text \<open>
  What is recorded for a workspace and a day, read as the dashboard and the status bar
  read it: a missing workspace, day or bucket entry counts as zero seconds. A bucket entry
  that is not a number records no seconds.
\<close>

definition bucketAt :: "PersistedData \<Rightarrow> string \<Rightarrow> string \<Rightarrow> DayBucket option" where
  "bucketAt d w day =
     (case workspaceFolders d of
        None \<Rightarrow> None
      | Some wfs \<Rightarrow>
          (case getProp wfs w of
             None \<Rightarrow> None
           | Some ws \<Rightarrow> (case dates ws of None \<Rightarrow> None | Some ds \<Rightarrow> getProp ds day)))"


definition seconds :: "jsval \<Rightarrow> int" where
  "seconds v = (case v of Num n \<Rightarrow> n | Text _ \<Rightarrow> 0)"

definition valueAt :: "jsval obj \<Rightarrow> string \<Rightarrow> int" where
  "valueAt ob k = (case getProp ob k of None \<Rightarrow> 0 | Some v \<Rightarrow> seconds v)"



text \<open>
  The sum of the seconds that the entries of an object hold, and the seconds recorded in
  all day buckets.
\<close>

definition sumObj :: "jsval obj \<Rightarrow> int" where
  "sumObj ob = sum_list (map (\<lambda>p. seconds (snd p)) ob)"

definition workspaceTotal :: "WorkspaceEntry \<Rightarrow> int" where
  "workspaceTotal ws =
     (case dates ws of None \<Rightarrow> 0 | Some ds \<Rightarrow> sum_list (map (\<lambda>p. totalSeconds (snd p)) ds))"

definition grandTotal :: "PersistedData \<Rightarrow> int" where
  "grandTotal d =
     (case workspaceFolders d of
        None \<Rightarrow> 0
      | Some wfs \<Rightarrow> sum_list (map (\<lambda>p. workspaceTotal (snd p)) wfs))"

text \<open>The equality between the total of a day bucket and its two breakdowns.\<close>

definition bucketInv :: "DayBucket \<Rightarrow> bool" where
  "bucketInv b = (totalSeconds b = sumObj (byFile b) + sumObj (byFolder b))"

text \<open>
  When \<^verbatim>\<open>ob[k] = (ob[k] || 0) + delta\<close> is an addition of numbers: the entry is a number
  (or the empty string), or there is none and the key names nothing in
  \<^verbatim>\<open>Object.prototype\<close>.
\<close>

definition addsNumber :: "jsval obj \<Rightarrow> string \<Rightarrow> bool" where
  "addsNumber ob k =
     (case getProp ob k of
        Some (Num v) \<Rightarrow> True
      | Some (Text t) \<Rightarrow> t = []
      | None \<Rightarrow> k \<noteq> ''__proto__'' \<and> k \<notin> set inheritedFunctionNames)"


text \<open>
  A concrete host for evaluating the model on examples: POSIX paths, a workspace URI
  \<^verbatim>\<open>file://<path>\<close>, and \<^verbatim>\<open>path.relative\<close> on a file below the workspace folder, where it
  strips the folder's path (the examples use no other case).
\<close>

definition posixHost :: PathHost where
  "posixHost =
     \<lparr>relative = (\<lambda>from to.
        Some (if startsWith to (from @ ''/'') then drop (length from + 1) to else to)),
      uriFsPath = (\<lambda>u. Some (drop 7 u)),
      sep = CHR ''/''\<rparr>"

section \<open>Human-readable durations\<close>




section \<open>The persisted value\<close>

text \<open>
  What \<^verbatim>\<open>storage.save(this.data)\<close> hands to the host's key-value store is the data as a
  JSON value: objects within objects. \<open>dataJson\<close> is that value for the typed data of the
  service; a key whose value is \<^verbatim>\<open>undefined\<close> is absent.
\<close>

datatype json =
    JNull
  | JBool bool
  | JNum int
  | JStr string
  | JArr "json list"
  | JObj "(string \<times> json) list"

definition valueJson :: "jsval \<Rightarrow> json" where
  "valueJson v = (case v of Num n \<Rightarrow> JNum n | Text t \<Rightarrow> JStr t)"

definition numbersJson :: "jsval obj \<Rightarrow> json" where
  "numbersJson ob = JObj (map (\<lambda>p. (fst p, valueJson (snd p))) ob)"

definition bucketJson :: "DayBucket \<Rightarrow> json" where
  "bucketJson b =
     JObj [(''totalSeconds'', JNum (totalSeconds b)),
           (''byFile'', numbersJson (byFile b)),
           (''byFolder'', numbersJson (byFolder b))]"

definition workspaceJson :: "WorkspaceEntry \<Rightarrow> json" where
  "workspaceJson ws =
     JObj ((''meta'', JObj [(''path'', JStr (path (meta ws)))])
           # (case dates ws of
                None \<Rightarrow> []
              | Some ds \<Rightarrow> [(''dates'', JObj (map (\<lambda>p. (fst p, bucketJson (snd p))) ds))]))"

definition dataJson :: "PersistedData \<Rightarrow> json" where
  "dataJson d =
     JObj (case workspaceFolders d of
             None \<Rightarrow> []
           | Some wfs \<Rightarrow>
               [(''workspaceFolders'', JObj (map (\<lambda>p. (fst p, workspaceJson (snd p))) wfs))])"

text \<open>
  Reading a JSON value along a path of keys, and the two shapes of a value: a scalar, and a
  flat map (an object all of whose values are scalars).
\<close>

fun jsonAt :: "json \<Rightarrow> string list \<Rightarrow> json option" where
  "jsonAt v [] = Some v"
| "jsonAt (JObj kvs) (k # ks) = (case getProp kvs k of None \<Rightarrow> None | Some v \<Rightarrow> jsonAt v ks)"
| "jsonAt _ (k # ks) = None"

fun isScalar :: "json \<Rightarrow> bool" where
  "isScalar (JArr _) = False"
| "isScalar (JObj _) = False"
| "isScalar _ = True"

fun isFlatMap :: "json \<Rightarrow> bool" where
  "isFlatMap (JObj kvs) = list_all (\<lambda>p. isScalar (snd p)) kvs"
| "isFlatMap _ = False"

section \<open>Storage\<close>

text \<open>
  \<^verbatim>\<open>Storage\<close> and the part of the host it drives. The object's fields are
  \<open>pendingData\<close> and \<open>saveTimer\<close> (a timer handle). The host holds the key-value store
  \<open>globalState\<close>, the pending timeouts with their due times, the clock, the next fresh
  timer handle, and the number of \<^verbatim>\<open>globalState.update\<close> calls whose promise has not
  settled yet; the timer callback of \<^verbatim>\<open>save\<close> is suspended at its \<^verbatim>\<open>await\<close> for each of
  them. \<open>written\<close> logs the value of every \<^verbatim>\<open>update('timezap.data', _)\<close> call and
  \<open>saved\<close> the argument of every \<^verbatim>\<open>save\<close> call, in order; \<open>None\<close> is \<^verbatim>\<open>undefined\<close>.
\<close>

record World =
  pendingData :: "json option"
  saveTimer :: "nat option"
  globalState :: "json obj"
  timers :: "(nat \<times> int) list"
  clock :: int
  nextHandle :: nat
  inflight :: nat
  written :: "json option list"
  saved :: "json list"

definition storageKey :: string where
  "storageKey = ''timezap.data''"

definition newWorld :: "json obj \<Rightarrow> World" where
  "newWorld gs =
     \<lparr>pendingData = None, saveTimer = None, globalState = gs, timers = [], clock = 0,
      nextHandle = 0, inflight = 0, written = [], saved = []\<rparr>"

definition delProp :: "string \<Rightarrow> 'v obj \<Rightarrow> 'v obj" where
  "delProp k ob = filter (\<lambda>p. fst p \<noteq> k) ob"

text \<open>\<^verbatim>\<open>load()\<close>: the stored value, \<^verbatim>\<open>{}\<close> when the key is absent.\<close>

definition load :: "World \<Rightarrow> json" where
  "load w = (case getProp (globalState w) storageKey of None \<Rightarrow> JObj [] | Some d \<Rightarrow> d)"

text \<open>
  \<^verbatim>\<open>save(data)\<close> up to its \<^verbatim>\<open>await\<close>: remember the data, clear the timeout whose handle
  is held, and schedule the write 1000 ms from now.
\<close>

definition save :: "json \<Rightarrow> World \<Rightarrow> World" where
  "save d w =
     w\<lparr>pendingData := Some d,
       timers := (case saveTimer w of
                    None \<Rightarrow> timers w
                  | Some t \<Rightarrow> filter (\<lambda>p. fst p \<noteq> t) (timers w))
                 @ [(nextHandle w, clock w + 1000)],
       saveTimer := Some (nextHandle w),
       nextHandle := Suc (nextHandle w),
       saved := saved w @ [d]\<rparr>"

text \<open>
  The timer callback up to its \<^verbatim>\<open>await\<close>: \<^verbatim>\<open>globalState.update(key, this.pendingData)\<close>
  is called with the pending data as it is now; \<^verbatim>\<open>update\<close> with \<^verbatim>\<open>undefined\<close> removes the
  key.
\<close>

definition fireWrite :: "World \<Rightarrow> World" where
  "fireWrite w =
     w\<lparr>globalState := (case pendingData w of
                         None \<Rightarrow> delProp storageKey (globalState w)
                       | Some d \<Rightarrow> setProp storageKey d (globalState w)),
       written := written w @ [pendingData w],
       inflight := Suc (inflight w)\<rparr>"

text \<open>The rest of the callback, once the update has settled (resolved or rejected).\<close>

definition settleWrite :: "World \<Rightarrow> World" where
  "settleWrite w = w\<lparr>saveTimer := None, pendingData := None, inflight := inflight w - 1\<rparr>"

text \<open>
  What can happen, one event at a time on the single thread: a call of \<^verbatim>\<open>save\<close>, time
  passing, a due timeout firing, and a pending update settling. An event that cannot
  happen in a world (a timeout that is not pending or not due, no update in flight, time
  running backwards) has no successor.
\<close>

datatype Event = Save json | Advance int | Fire nat | Settle

definition step :: "Event \<Rightarrow> World \<Rightarrow> World option" where
  "step e w =
     (case e of
        Save d \<Rightarrow> Some (save d w)
      | Advance ms \<Rightarrow> if ms < 0 then None else Some (w\<lparr>clock := clock w + ms\<rparr>)
      | Fire t \<Rightarrow>
          (case map_of (timers w) t of
             None \<Rightarrow> None
           | Some due \<Rightarrow>
               if clock w < due then None
               else Some (fireWrite (w\<lparr>timers := filter (\<lambda>p. fst p \<noteq> t) (timers w)\<rparr>)))
      | Settle \<Rightarrow> if inflight w = 0 then None else Some (settleWrite w))"

fun run :: "Event list \<Rightarrow> World \<Rightarrow> World option" where
  "run [] w = Some w"
| "run (e # es) w = (case step e w of None \<Rightarrow> None | Some w' \<Rightarrow> run es w')"

text \<open>
  \<^verbatim>\<open>exportToJson()\<close> and \<^verbatim>\<open>importFromJson(json)\<close> up to the \<^verbatim>\<open>await\<close> of its save, over
  the host's \<^verbatim>\<open>JSON.stringify\<close> and \<^verbatim>\<open>JSON.parse\<close> (\<open>None\<close>: a \<^verbatim>\<open>SyntaxError\<close>, and
  nothing is saved).
\<close>

record JsonHost =
  stringify :: "json \<Rightarrow> string"
  parse :: "string \<Rightarrow> json option"

definition exportToJson :: "JsonHost \<Rightarrow> World \<Rightarrow> string" where
  "exportToJson j w = stringify j (load w)"

definition importFromJson :: "JsonHost \<Rightarrow> string \<Rightarrow> World \<Rightarrow> World option" where
  "importFromJson j text w = (case parse j text of None \<Rightarrow> None | Some d \<Rightarrow> Some (save d w))"

text \<open>
  \<^verbatim>\<open>TimeService.persist()\<close> up to its \<^verbatim>\<open>await\<close>. The storage is handed the data object
  itself, not a copy of it; \<open>persist\<close> records its value at the call. A tick that
  accumulates after the call and before the timeout fires changes that object, and the
  write then stores the value the object has by then.
\<close>

definition persist :: "TimeService \<Rightarrow> World \<Rightarrow> World" where
  "persist s w = save (dataJson (data s)) w"

text \<open>
  \<^verbatim>\<open>stop()\<close>: the listeners are detached, both interval timers are cleared, and the final
  state is handed to the storage.
\<close>

definition stop :: "TimeService \<Rightarrow> World \<Rightarrow> (TimeService \<times> World) \<times> UpdateEvent list" where
  "stop s w =
     (if \<not> running s then ((s, w), [])
      else ((s\<lparr>running := False, disposables := 0, tickTimer := None, persistTimer := None\<rparr>,
             persist s w),
            [EvRunning False]))"

section \<open>Time series\<close>

text \<open>
  What \<^verbatim>\<open>getTimeSeriesForWorkspaceRanges\<close> takes from the host: the local time zone, as
  ECMAScript's \<^verbatim>\<open>LocalTZA\<close> gives the offset in milliseconds at a UTC instant
  (\<open>tzaOfUtc\<close>) and at a local time value (\<open>tzaOfLocal\<close>), and \<^verbatim>\<open>String.localeCompare\<close>.
\<close>

record SeriesHost =
  tzaOfUtc :: "int \<Rightarrow> int"
  tzaOfLocal :: "int \<Rightarrow> int"
  localeCompare :: "string \<Rightarrow> string \<Rightarrow> int"

text \<open>
  \<^verbatim>\<open>d = new Date(today); d.setDate(d.getDate() - i); d.getTime()\<close>. \<^verbatim>\<open>setDate\<close> works on
  local time: it moves the local time value by whole days (\<^verbatim>\<open>MakeDay\<close> carries a day
  number below 1 into the months before) and converts the result back to UTC.
\<close>

definition daysBefore :: "SeriesHost \<Rightarrow> int \<Rightarrow> nat \<Rightarrow> int" where
  "daysBefore h today i =
     (let t = today + tzaOfUtc h today;
          newDate = t - int i * msPerDay
      in newDate - tzaOfLocal h newDate)"

text \<open>\<^verbatim>\<open>for (let i = days - 1; i >= 0; i--) out.push(f(i))\<close>.\<close>

primrec countDown :: "(nat \<Rightarrow> 'a) \<Rightarrow> nat \<Rightarrow> 'a list" where
  "countDown f 0 = []"
| "countDown f (Suc i) = f i # countDown f i"

text \<open>An entry of a series is \<^verbatim>\<open>{ date, totalSeconds }\<close>.\<close>

type_synonym SeriesEntry = "string \<times> int"

definition makeRange :: "SeriesHost \<Rightarrow> int \<Rightarrow> nat \<Rightarrow> SeriesEntry list" where
  "makeRange h today days = countDown (\<lambda>i. (dateKeyFor (daysBefore h today i), 0)) days"

definition buildContiguous :: "SeriesHost \<Rightarrow> int \<Rightarrow> DayBucket obj \<Rightarrow> nat \<Rightarrow> SeriesEntry list" where
  "buildContiguous h today ds days =
     countDown (\<lambda>i. let key = dateKeyFor (daysBefore h today i)
                     in (key, case getProp ds key of None \<Rightarrow> 0 | Some found \<Rightarrow> totalSeconds found))
       days"

text \<open>
  \<^verbatim>\<open>entries.sort((a, b) => a.date.localeCompare(b.date))\<close>: the sort is stable; an entry
  goes before the first later entry that it does not compare greater than.
\<close>

fun insertEntry :: "(string \<Rightarrow> string \<Rightarrow> int) \<Rightarrow> SeriesEntry \<Rightarrow> SeriesEntry list \<Rightarrow> SeriesEntry list" where
  "insertEntry cmp x [] = [x]"
| "insertEntry cmp x (y # ys) =
     (if cmp (fst x) (fst y) \<le> 0 then x # y # ys else y # insertEntry cmp x ys)"

definition sortEntries :: "(string \<Rightarrow> string \<Rightarrow> int) \<Rightarrow> SeriesEntry list \<Rightarrow> SeriesEntry list" where
  "sortEntries cmp xs = foldr (insertEntry cmp) xs []"

record Ranges =
  range7d :: "SeriesEntry list"
  range30d :: "SeriesEntry list"
  range1y :: "SeriesEntry list"
  rangeAll :: "SeriesEntry list"

text \<open>
  \<^verbatim>\<open>getTimeSeriesForWorkspaceRanges(workspaceUri?)\<close> on the loaded data. \<open>t1\<close>, \<open>t2\<close>,
  \<open>t3\<close> are the readings of the clock by the successive \<^verbatim>\<open>new Date()\<close> (the branch
  without data reads it once).
\<close>

definition getTimeSeriesForWorkspaceRanges ::
  "SeriesHost \<Rightarrow> int \<Rightarrow> int \<Rightarrow> int \<Rightarrow> string option \<Rightarrow> TimeService \<Rightarrow> PersistedData \<Rightarrow> Ranges" where
  "getTimeSeriesForWorkspaceRanges h t1 t2 t3 workspaceUri s loaded =
     (let wsKey = (case workspaceUri of
                     None \<Rightarrow> orUntitled (activeWorkspace s)
                   | Some u \<Rightarrow> if u = [] then orUntitled (activeWorkspace s) else u);
          ws = (case workspaceFolders loaded of None \<Rightarrow> None | Some wfs \<Rightarrow> getProp wfs wsKey)
      in case (case ws of None \<Rightarrow> None | Some w \<Rightarrow> dates w) of
           None \<Rightarrow>
             \<lparr>range7d = makeRange h t1 7, range30d = makeRange h t1 30,
              range1y = makeRange h t1 365, rangeAll = []\<rparr>
         | Some ds \<Rightarrow>
             (let dayEntries =
                    sortEntries (localeCompare h)
                      (map (\<lambda>k. (k, case getProp ds k of None \<Rightarrow> 0 | Some b \<Rightarrow> totalSeconds b))
                         (map fst ds))
              in \<lparr>range7d = buildContiguous h t1 ds 7, range30d = buildContiguous h t2 ds 30,
                  range1y = buildContiguous h t3 ds 365, rangeAll = dayEntries\<rparr>))"

text \<open>
  Two hosts for examples. Both compare strings by code units, which is how
  \<^verbatim>\<open>localeCompare\<close> orders day keys. One is on UTC. The other is on Central European Time
  as it ran in 2025: UTC+1, and UTC+2 from 2025-03-30T01:00Z until 2025-10-26T01:00Z; a
  local time value that the change of offset skips or repeats is read with the offset in
  force before the change.
\<close>

definition compareStrings :: "string \<Rightarrow> string \<Rightarrow> int" where
  "compareStrings a b = (if a < b then - 1 else if a = b then 0 else 1)"

definition utcHost :: SeriesHost where
  "utcHost = \<lparr>tzaOfUtc = (\<lambda>t. 0), tzaOfLocal = (\<lambda>t. 0), localeCompare = compareStrings\<rparr>"

definition berlinHost :: SeriesHost where
  "berlinHost =
     \<lparr>tzaOfUtc = (\<lambda>t. if 1743296400000 \<le> t \<and> t < 1761440400000 then 7200000 else 3600000),
      tzaOfLocal = (\<lambda>t. if 1743303600000 \<le> t \<and> t < 1761447600000 then 7200000 else 3600000),
      localeCompare = compareStrings\<rparr>"

section \<open>Example runs\<close>

text \<open>
  A service created with the default configuration, started at 2025-03-30T23:30:00Z, with
  the editor on \<^verbatim>\<open>/ws/src/a.ts\<close> in the workspace folder \<^verbatim>\<open>file:///ws\<close>.
\<close>

definition sampleStart :: int where
  "sampleStart = 1743377400000"

definition sampleService :: TimeService where
  "sampleService =
     fst (onActivityForEditor (Some (''/ws/src/a.ts'', Some ''file:///ws'')) sampleStart sampleStart
            (fst (start sampleStart sampleStart (newTimeService None sampleStart sampleStart))))"

text \<open>The same service with the editor on another file of that workspace folder.\<close>

definition serviceEditing :: "string \<Rightarrow> TimeService" where
  "serviceEditing f =
     fst (onActivityForEditor (Some (f, Some ''file:///ws'')) sampleStart sampleStart
            (fst (start sampleStart sampleStart (newTimeService None sampleStart sampleStart))))"

text \<open>The data of the example service after a tick two and a half seconds after its start.\<close>

definition sampleData :: PersistedData where
  "sampleData = data (fst (onTick posixHost (sampleStart + 2500) sampleService))"

text \<open>
  Two invariants of the storage. The pending data is \<^verbatim>\<open>undefined\<close> or the argument of the
  most recent \<^verbatim>\<open>save\<close>. And, between writes that settle before the next \<^verbatim>\<open>save\<close>: no
  update is in flight and at most one timeout is pending, the one whose handle is held,
  with the data of the most recent \<^verbatim>\<open>save\<close> pending.
\<close>

definition pendingInv :: "World \<Rightarrow> bool" where
  "pendingInv w =
     (case pendingData w of None \<Rightarrow> True | Some d \<Rightarrow> saved w \<noteq> [] \<and> d = last (saved w))"

definition debounceInv :: "World \<Rightarrow> bool" where
  "debounceInv w =
     (inflight w = 0 \<and>
      (case timers w of
         [] \<Rightarrow> True
       | p # ps \<Rightarrow> ps = [] \<and> saveTimer w = Some (fst p) \<and> saved w \<noteq> []
                   \<and> pendingData w = Some (last (saved w))))"

text \<open>
  A run of the storage in which \<^verbatim>\<open>save\<close> is called while the update of an earlier write
  is still in flight: the first write fires after its second, two more calls of
  \<^verbatim>\<open>save\<close> follow (the second before the timeout of the first has fired), then the
  first write settles, and a second later the remaining timeout fires.
\<close>

definition raceTrace :: "Event list" where
  "raceTrace =
     [Save (JObj [(''version'', JNum 0)]), Advance 1000, Fire 0,
      Save (JObj [(''version'', JNum 1)]), Save (JObj [(''version'', JNum 2)]),
      Settle, Advance 1000, Fire 2]"

section \<open>A JSON host\<close>

text \<open>
  A JSON host for examples: \<^verbatim>\<open>JSON.stringify(value, null, 2)\<close> and \<^verbatim>\<open>JSON.parse\<close> on JSON
  values whose numbers are integers. The printer indents by two spaces per level and
  escapes the quote, the backslash and the control characters in strings. The parser is a
  recursive descent over the text, bounded by a count of steps that the length of the text
  fixes; a number with a fraction or an exponent, an escape of a code above 255 and any
  malformed text are rejected. A repeated key keeps its first position and its last value.
\<close>

definition hexDigit :: "nat \<Rightarrow> char" where
  "hexDigit n = ''0123456789abcdef'' ! n"

definition escapeChar :: "char \<Rightarrow> string" where
  "escapeChar c =
     (if c = CHR 0x22 then [CHR 0x5C, CHR 0x22]
      else if c = CHR 0x5C then [CHR 0x5C, CHR 0x5C]
      else if c = CHR 0x08 then [CHR 0x5C, CHR ''b'']
      else if c = CHR 0x0C then [CHR 0x5C, CHR ''f'']
      else if c = CHR 0x0A then [CHR 0x5C, CHR ''n'']
      else if c = CHR 0x0D then [CHR 0x5C, CHR ''r'']
      else if c = CHR 0x09 then [CHR 0x5C, CHR ''t'']
      else if (of_char c :: nat) < 32
        then [CHR 0x5C, CHR ''u'', CHR ''0'', CHR ''0'',
              hexDigit (of_char c div 16), hexDigit (of_char c mod 16)]
      else [c])"

definition quote :: "string \<Rightarrow> string" where
  "quote s = CHR 0x22 # concat (map escapeChar s) @ [CHR 0x22]"

definition newline :: "nat \<Rightarrow> string" where
  "newline n = CHR 0x0A # replicate (2 * n) (CHR '' '')"

fun joinWith :: "string \<Rightarrow> string list \<Rightarrow> string" where
  "joinWith s [] = []"
| "joinWith s [x] = x"
| "joinWith s (x # y # ys) = x @ s @ joinWith s (y # ys)"

fun printJson :: "nat \<Rightarrow> json \<Rightarrow> string" where
  "printJson n JNull = ''null''"
| "printJson n (JBool b) = (if b then ''true'' else ''false'')"
| "printJson n (JNum i) = showInt i"
| "printJson n (JStr s) = quote s"
| "printJson n (JArr xs) =
     (if xs = [] then ''[]''
      else ''['' @ newline (Suc n)
           @ joinWith ('','' @ newline (Suc n)) (map (printJson (Suc n)) xs)
           @ newline n @ '']'')"
| "printJson n (JObj kvs) =
     (if kvs = [] then ''{}''
      else ''{'' @ newline (Suc n)
           @ joinWith ('','' @ newline (Suc n))
               (map (\<lambda>p. quote (fst p) @ '': '' @ printJson (Suc n) (snd p)) kvs)
           @ newline n @ ''}'')"

definition jsonSpace :: "char \<Rightarrow> bool" where
  "jsonSpace c = (c = CHR '' '' \<or> c = CHR 0x0A \<or> c = CHR 0x0D \<or> c = CHR 0x09)"

definition skipSpace :: "string \<Rightarrow> string" where
  "skipSpace s = dropWhile jsonSpace s"

definition hexValue :: "char \<Rightarrow> nat option" where
  "hexValue c =
     (let n = (of_char c :: nat)
      in if 48 \<le> n \<and> n \<le> 57 then Some (n - 48)
         else if 97 \<le> n \<and> n \<le> 102 then Some (n - 87)
         else if 65 \<le> n \<and> n \<le> 70 then Some (n - 55)
         else None)"

fun hexNumber :: "string \<Rightarrow> nat option" where
  "hexNumber [] = Some 0"
| "hexNumber (c # cs) =
     (case hexValue c of
        None \<Rightarrow> None
      | Some d \<Rightarrow> (case hexNumber cs of None \<Rightarrow> None | Some r \<Rightarrow> Some (d * 16 ^ length cs + r)))"

definition unescape :: "char \<Rightarrow> char option" where
  "unescape e =
     (if e = CHR 0x22 \<or> e = CHR 0x5C \<or> e = CHR ''/'' then Some e
      else if e = CHR ''b'' then Some (CHR 0x08)
      else if e = CHR ''f'' then Some (CHR 0x0C)
      else if e = CHR ''n'' then Some (CHR 0x0A)
      else if e = CHR ''r'' then Some (CHR 0x0D)
      else if e = CHR ''t'' then Some (CHR 0x09)
      else None)"

definition consChar :: "char \<Rightarrow> (string \<times> string) option \<Rightarrow> (string \<times> string) option" where
  "consChar c r = (case r of None \<Rightarrow> None | Some (s, rest) \<Rightarrow> Some (c # s, rest))"

fun parseChars :: "nat \<Rightarrow> string \<Rightarrow> (string \<times> string) option" where
  "parseChars 0 s = None"
| "parseChars (Suc f) [] = None"
| "parseChars (Suc f) (c # cs) =
     (if c = CHR 0x22 then Some ([], cs)
      else if c = CHR 0x5C then
        (case cs of
           [] \<Rightarrow> None
         | e # rest \<Rightarrow>
             if e = CHR ''u'' then
               (if length rest < 4 then None
                else (case hexNumber (take 4 rest) of
                        None \<Rightarrow> None
                      | Some code \<Rightarrow>
                          if code < 256 then consChar (char_of code) (parseChars f (drop 4 rest))
                          else None))
             else (case unescape e of None \<Rightarrow> None | Some ch \<Rightarrow> consChar ch (parseChars f rest)))
      else if (of_char c :: nat) < 32 then None
      else consChar c (parseChars f cs))"

definition parseNat :: "string \<Rightarrow> (nat \<times> string) option" where
  "parseNat s =
     (let ds = takeWhile isDigit s; rest = dropWhile isDigit s
      in if ds = [] \<or> (hd ds = CHR ''0'' \<and> length ds > 1) then None
         else if rest \<noteq> [] \<and> (hd rest = CHR ''.'' \<or> hd rest = CHR ''e'' \<or> hd rest = CHR ''E'')
           then None
         else Some (foldl (\<lambda>a c. 10 * a + (of_char c - 48)) 0 ds, rest))"

definition objectOf :: "(string \<times> json) list \<Rightarrow> (string \<times> json) list" where
  "objectOf kvs = foldl (\<lambda>ob p. setProp (fst p) (snd p) ob) [] kvs"

fun parseValue :: "nat \<Rightarrow> string \<Rightarrow> (json \<times> string) option"
  and parseElements :: "nat \<Rightarrow> string \<Rightarrow> (json list \<times> string) option"
  and parseMembers :: "nat \<Rightarrow> string \<Rightarrow> ((string \<times> json) list \<times> string) option" where
  "parseValue 0 s = None"
| "parseValue (Suc f) s =
     (case skipSpace s of
        [] \<Rightarrow> None
      | c # cs \<Rightarrow>
          if c = CHR ''{'' then
            (case skipSpace cs of
               [] \<Rightarrow> None
             | c' # cs' \<Rightarrow>
                 if c' = CHR ''}'' then Some (JObj [], cs')
                 else (case parseMembers f cs of
                         None \<Rightarrow> None
                       | Some (kvs, r) \<Rightarrow> Some (JObj (objectOf kvs), r)))
          else if c = CHR ''['' then
            (case skipSpace cs of
               [] \<Rightarrow> None
             | c' # cs' \<Rightarrow>
                 if c' = CHR '']'' then Some (JArr [], cs')
                 else (case parseElements f cs of
                         None \<Rightarrow> None
                       | Some (vs, r) \<Rightarrow> Some (JArr vs, r)))
          else if c = CHR 0x22 then
            (case parseChars f cs of None \<Rightarrow> None | Some (str, r) \<Rightarrow> Some (JStr str, r))
          else if c = CHR ''t'' then
            (if take 3 cs = ''rue'' then Some (JBool True, drop 3 cs) else None)
          else if c = CHR ''f'' then
            (if take 4 cs = ''alse'' then Some (JBool False, drop 4 cs) else None)
          else if c = CHR ''n'' then
            (if take 3 cs = ''ull'' then Some (JNull, drop 3 cs) else None)
          else if c = CHR ''-'' then
            (case parseNat cs of None \<Rightarrow> None | Some (n, r) \<Rightarrow> Some (JNum (- int n), r))
          else
            (case parseNat (c # cs) of None \<Rightarrow> None | Some (n, r) \<Rightarrow> Some (JNum (int n), r)))"
| "parseElements 0 s = None"
| "parseElements (Suc f) s =
     (case parseValue f s of
        None \<Rightarrow> None
      | Some (v, r) \<Rightarrow>
          (case skipSpace r of
             [] \<Rightarrow> None
           | c # cs \<Rightarrow>
               if c = CHR '','' then
                 (case parseElements f cs of None \<Rightarrow> None | Some (vs, r') \<Rightarrow> Some (v # vs, r'))
               else if c = CHR '']'' then Some ([v], cs)
               else None))"
| "parseMembers 0 s = None"
| "parseMembers (Suc f) s =
     (case skipSpace s of
        [] \<Rightarrow> None
      | c # cs \<Rightarrow>
          if c \<noteq> CHR 0x22 then None
          else
            (case parseChars f cs of
               None \<Rightarrow> None
             | Some (k, r) \<Rightarrow>
                 (case skipSpace r of
                    [] \<Rightarrow> None
                  | c' # cs' \<Rightarrow>
                      if c' \<noteq> CHR '':'' then None
                      else
                        (case parseValue f cs' of
                           None \<Rightarrow> None
                         | Some (v, r') \<Rightarrow>
                             (case skipSpace r' of
                                [] \<Rightarrow> None
                              | c'' # cs'' \<Rightarrow>
                                  if c'' = CHR '','' then
                                    (case parseMembers f cs'' of
                                       None \<Rightarrow> None
                                     | Some (kvs, r'') \<Rightarrow> Some ((k, v) # kvs, r''))
                                  else if c'' = CHR ''}'' then Some ([(k, v)], cs'')
                                  else None)))))"

definition parseJson :: "string \<Rightarrow> json option" where
  "parseJson text =
     (case parseValue (2 * length text + 2) text of
        None \<Rightarrow> None
      | Some (v, r) \<Rightarrow> if skipSpace r = [] then Some v else None)"

definition jsonHost :: JsonHost where
  "jsonHost = \<lparr>stringify = printJson 0, parse = parseJson\<rparr>"

text \<open>
  For the round trip of the example host: a JSON value is well formed when no object in it
  repeats a key; a number ends where the text ends or a character follows that cannot
  continue it; and the characters a printed value can start with.
\<close>

fun wfJson :: "json \<Rightarrow> bool" where
  "wfJson (JArr xs) = list_all wfJson xs"
| "wfJson (JObj kvs) = (distinct (map fst kvs) \<and> list_all (\<lambda>p. wfJson (snd p)) kvs)"
| "wfJson _ = True"

definition numberEnd :: "string \<Rightarrow> bool" where
  "numberEnd rest =
     (case rest of
        [] \<Rightarrow> True
      | c # _ \<Rightarrow> \<not> isDigit c \<and> c \<noteq> CHR ''.'' \<and> c \<noteq> CHR ''e'' \<and> c \<noteq> CHR ''E'')"

definition valueStart :: "char \<Rightarrow> bool" where
  "valueStart c = (c = CHR ''{'' \<or> c = CHR ''['' \<or> c = CHR 0x22 \<or> c = CHR ''t'' \<or> c = CHR ''f''
     \<or> c = CHR ''n'' \<or> c = CHR ''-'' \<or> isDigit c)"

text \<open>A store that holds the example data.\<close>

definition sampleWorld :: World where
  "sampleWorld = newWorld [(storageKey, dataJson sampleData)]"

text \<open>
  A run in which the exported JSON is imported while an update is in flight. The store
  holds the example data; the service's periodic \<^verbatim>\<open>persist\<close> has called \<^verbatim>\<open>save\<close> with
  the same data and, a second later, the timeout has fired and called
  \<^verbatim>\<open>globalState.update\<close>. Before that update settles, \<^verbatim>\<open>importFromJson\<close> is called with
  the text that \<^verbatim>\<open>exportToJson\<close> returns. Then the update settles, and a second later the
  timeout of the import fires.
\<close>

definition importRace :: "World option" where
  "importRace =
     Option.bind (run [Save (dataJson sampleData), Advance 1000, Fire 0] sampleWorld)
       (\<lambda>w. Option.bind (importFromJson jsonHost (exportToJson jsonHost w) w)
              (run [Settle, Advance 1000, Fire 1]))"

text \<open>
  The association lists that stand for objects repeat no key. This holds of the empty data
  and every tick keeps it.
\<close>

definition distinctKeys :: "'v obj \<Rightarrow> bool" where
  "distinctKeys ob = distinct (map fst ob)"

definition wfBucket :: "DayBucket \<Rightarrow> bool" where
  "wfBucket b = (distinctKeys (byFile b) \<and> distinctKeys (byFolder b))"

definition wfWorkspace :: "WorkspaceEntry \<Rightarrow> bool" where
  "wfWorkspace ws =
     (case dates ws of
        None \<Rightarrow> True
      | Some ds \<Rightarrow> distinctKeys ds \<and> list_all (\<lambda>p. wfBucket (snd p)) ds)"

definition wfData :: "PersistedData \<Rightarrow> bool" where
  "wfData d =
     (case workspaceFolders d of
        None \<Rightarrow> True
      | Some wfs \<Rightarrow> distinctKeys wfs \<and> list_all (\<lambda>p. wfWorkspace (snd p)) wfs)"

section \<open>The day key names the day\<close>

lemma below_ten: "k < 10 \<Longrightarrow> k = 0 \<or> k = 1 \<or> k = 2 \<or> k = 3 \<or> k = 4 \<or> k = 5 \<or> k = 6 \<or> k = 7 \<or> k = 8 \<or> k = (9::nat)"
  by arith

lemma digitChar_code: "k < 10 \<Longrightarrow> (of_char (digitChar k) :: nat) = 48 + k"
  by (drule below_ten) (auto simp: digitChar_def)

lemma isDigit_digitChar: "k < 10 \<Longrightarrow> isDigit (digitChar k)"
  by (simp add: isDigit_def digitChar_code)

lemma decimal_not_Nil: "decimal n \<noteq> []"
  by (subst decimal.simps) simp

lemma decimal_digits: "c \<in> set (decimal n) \<Longrightarrow> isDigit c"
proof (induction n rule: decimal.induct)
  case (1 n)
  then show ?case
    by (subst (asm) (2) decimal.simps) (auto simp: isDigit_digitChar split: if_splits)
qed

lemma decimal_value: "foldl (\<lambda>a c. 10 * a + (of_char c - 48)) 0 (decimal n) = n"
proof (induction n rule: decimal.induct)
  case (1 n)
  show ?case
  proof (cases "n < 10")
    case True
    then show ?thesis
      by (subst decimal.simps) (simp add: digitChar_code)
  next
    case False
    with 1 show ?thesis
      by (subst decimal.simps) (simp add: digitChar_code)
  qed
qed

lemma length_padStart: "length (padStart w s) = max w (length s)"
  by (simp add: padStart_def)

lemma length_yearString: "4 \<le> length (yearString y)"
  by (auto simp: yearString_def length_padStart max_def)

lemma length_isoDate: "10 \<le> length (isoDate n)"
proof -
  obtain y m d where c: "civilFromDays n = (y, m, d)"
    by (cases "civilFromDays n") auto
  have "4 \<le> length (yearString y)"
    by (rule length_yearString)
  then show ?thesis
    by (simp add: isoDate_def c length_padStart)
qed

lemma dateKeyFor_day: "dateKeyFor ts = take 10 (isoDate (ts div msPerDay))"
  using length_isoDate [of "ts div msPerDay"]
  by (simp add: dateKeyFor_def toISOString_def Let_def)
















section \<open>Properties of the accumulation\<close>

lemma getProp_Nil [simp]: "getProp [] k = None"
  by (simp add: getProp_def)

lemma getProp_setProp: "getProp (setProp k v ob) k' = (if k' = k then Some v else getProp ob k')"
  by (induction ob) (auto simp: getProp_def)

lemma sum_setProp:
  fixes g :: "'v \<Rightarrow> int"
  shows "sum_list (map (\<lambda>p. g (snd p)) (setProp k v ob)) =
         sum_list (map (\<lambda>p. g (snd p)) ob) + g v
           - (case getProp ob k of None \<Rightarrow> 0 | Some old \<Rightarrow> g old)"
  by (induction ob) (auto simp: getProp_def)

lemma bucketAt_accumulate:
  "bucketAt (accumulate agg w day fk fo delta d) w' day' =
     (if w' = w \<and> day' = day
      then Some (bumpBucket agg fk fo delta
                   (case bucketAt d w day of None \<Rightarrow> emptyBucket | Some b \<Rightarrow> b))
      else bucketAt d w' day')"
  by (auto simp: bucketAt_def accumulate_def Let_def getProp_setProp split: option.splits)

lemma totalSeconds_bumpBucket:
  "totalSeconds (bumpBucket agg fk fo delta b) = totalSeconds b + delta"
  by (simp add: bumpBucket_def Let_def)

lemma workspaceTotal_setDay:
  "workspaceTotal (ws\<lparr>dates := Some (setProp day b' ds)\<rparr>) =
     sum_list (map (\<lambda>p. totalSeconds (snd p)) ds) + totalSeconds b'
       - (case getProp ds day of None \<Rightarrow> 0 | Some old \<Rightarrow> totalSeconds old)"
  by (simp add: workspaceTotal_def sum_setProp)

lemma grandTotal_accumulate:
  "grandTotal (accumulate agg w day fk fo delta d) = grandTotal d + delta"
proof -
  define wfs where "wfs = (case workspaceFolders d of None \<Rightarrow> [] | Some x \<Rightarrow> x)"
  define ws where "ws = (case getProp wfs w of
                  None \<Rightarrow> \<lparr>meta = \<lparr>path = w\<rparr>, dates = Some []\<rparr>
                | Some x \<Rightarrow> x)"
  define ds where "ds = (case dates ws of None \<Rightarrow> [] | Some x \<Rightarrow> x)"
  define b where "b = (case getProp ds day of None \<Rightarrow> emptyBucket | Some x \<Rightarrow> x)"
  define ws' where "ws' = ws\<lparr>dates := Some (setProp day (bumpBucket agg fk fo delta b) ds)\<rparr>"
  have acc: "accumulate agg w day fk fo delta d = d\<lparr>workspaceFolders := Some (setProp w ws' wfs)\<rparr>"
    by (simp add: accumulate_def Let_def wfs_def ws_def ds_def b_def ws'_def)
  have old: "workspaceTotal ws = sum_list (map (\<lambda>p. totalSeconds (snd p)) ds)"
    by (simp add: workspaceTotal_def ds_def split: option.splits)
  have "workspaceTotal ws' = workspaceTotal ws + delta"
    unfolding ws'_def workspaceTotal_setDay old
    by (simp add: totalSeconds_bumpBucket b_def emptyBucket_def split: option.splits)
  moreover have "grandTotal d = sum_list (map (\<lambda>p. workspaceTotal (snd p)) wfs)"
    by (simp add: grandTotal_def wfs_def split: option.splits)
  moreover have "(case getProp wfs w of None \<Rightarrow> 0 | Some old \<Rightarrow> workspaceTotal old) = workspaceTotal ws"
    by (simp add: ws_def workspaceTotal_def split: option.splits)
  ultimately show ?thesis
    unfolding acc by (simp add: grandTotal_def sum_setProp)
qed


lemma sumObj_setProp:
  "sumObj (setProp k v ob) = sumObj ob + seconds v - valueAt ob k"
  using sum_setProp [of seconds k v ob] by (simp add: sumObj_def valueAt_def)

lemma sumObj_addTo: "sumObj (addTo k delta ob) = sumObj ob + (if addsNumber ob k then delta else 0)"
  by (auto simp: addTo_def addsNumber_def sumObj_setProp valueAt_def seconds_def
      split: option.splits jsval.splits)

lemma split_first: "c \<notin> set dir \<Longrightarrow> split c (dir @ c # rest) = dir # split c rest"
  by (induction dir) auto

lemma firstSegment_prefix: "c \<notin> set dir \<Longrightarrow> firstSegment c (dir @ c # rest) = dir"
  by (simp add: firstSegment_def split_first)




lemma onTick_running_active:
  assumes "running s" and "\<not> isIdleAt now s" and "1 \<le> (now - lastTick s) div 1000"
  shows "data (fst (onTick h now s)) =
           accumulate (aggregateBy (config s)) (orUntitled (activeWorkspace s)) (dateKeyFor now)
             (orUntitled (activeFile s))
             (folderKeyFor h (orUntitled (activeWorkspace s)) (orUntitled (activeFile s)))
             ((now - lastTick s) div 1000) (data s)"
  using assms by (simp add: onTick_def Let_def)




lemma valueAt_Nil [simp]: "valueAt [] k = 0"
  by (simp add: valueAt_def)







lemma sampleService_simps:
  "running sampleService" "lastTick sampleService = sampleStart"
  "lastActivity sampleService = sampleStart" "\<not> idle sampleService"
  "activeWorkspace sampleService = Some ''file:///ws''"
  "activeFile sampleService = Some ''/ws/src/a.ts''"
  "data sampleService = \<lparr>workspaceFolders = None\<rparr>"
  "config sampleService = defaultConfig"
  by (simp_all add: sampleService_def onActivityForEditor_def start_def newTimeService_def
      markActivity_def Let_def)

lemma sample_dateKey: "dateKeyFor (sampleStart + 2500) = ''2025-03-30''"
  by code_simp



lemma onTick_idle:
  assumes "running s" and "isIdleAt now s"
  shows "onTick h now s = (s\<lparr>idle := True, lastTick := now\<rparr>, if idle s then [] else [EvIdle True])"
  using assms by (simp add: onTick_def)

lemma onTick_short:
  assumes "running s" and "\<not> isIdleAt now s" and "(now - lastTick s) div 1000 \<le> 0"
  shows "onTick h now s = (s, [])"
  using assms by (simp add: onTick_def Let_def)

lemma onTick_stopped: "\<not> running s \<Longrightarrow> onTick h now s = (s, [])"
  by (simp add: onTick_def)

lemma grandTotal_onTick:
  "grandTotal (data (fst (onTick h now s))) =
     grandTotal (data s)
       + (if running s \<and> \<not> isIdleAt now s then max 0 ((now - lastTick s) div 1000) else 0)"
proof (cases "running s \<and> \<not> isIdleAt now s")
  case False
  then show ?thesis
    by (cases "running s") (simp_all add: onTick_idle onTick_stopped)
next
  case True
  show ?thesis
  proof (cases "1 \<le> (now - lastTick s) div 1000")
    case True
    with \<open>running s \<and> \<not> isIdleAt now s\<close> show ?thesis
      by (simp add: onTick_running_active grandTotal_accumulate)
  next
    case False
    with \<open>running s \<and> \<not> isIdleAt now s\<close> show ?thesis
      by (simp add: onTick_short)
  qed
qed

section \<open>Idle detection\<close>

text \<open>
  Against claim C2 as stated ("at exactly N elapsed seconds or fewer the session is not
  idle"): with the default timeout of 300 seconds, a tick taken exactly 300000 ms after the
  last activity marks a session idle that was not idle before.
\<close>

theorem idle_at_exact_timeout_counterexample:
  "running sampleService
   \<and> sampleStart + 300000 - lastActivity sampleService
       = idleTimeoutSeconds (config sampleService) * 1000
   \<and> \<not> idle sampleService
   \<and> idle (fst (onTick posixHost (sampleStart + 300000) sampleService))"
  by (simp add: sampleService_simps defaultConfig_def onTick_def isIdleAt_def)

text \<open>
  Claim C2, amended. A tick of the running service leaves the session idle exactly when it
  was idle already or at least \<open>N\<close> seconds have elapsed since the last recorded activity
  (\<open>now - lastActivity \<ge> N * 1000\<close> milliseconds: exactly \<open>N\<close> seconds count as idle),
  where \<open>N\<close> is \<open>config.idleTimeoutSeconds\<close>, 300 by default. Any recorded activity
  stamps \<open>lastActivity\<close> and clears the idle state.
\<close>

theorem idle_detection:
  assumes "running s"
  shows "(idle (fst (onTick h now s))
            \<longleftrightarrow> idle s \<or> idleTimeoutSeconds (config s) * 1000 \<le> now - lastActivity s)
       \<and> \<not> idle (fst (markActivity t1 t2 s))
       \<and> lastActivity (fst (markActivity t1 t2 s)) = t1
       \<and> idleTimeoutSeconds (config (newTimeService None a b)) = 300"
proof -
  have "idle (fst (onTick h now s))
          \<longleftrightarrow> idle s \<or> idleTimeoutSeconds (config s) * 1000 \<le> now - lastActivity s"
    using assms by (simp add: onTick_def isIdleAt_def Let_def)
  moreover have "\<not> idle (fst (markActivity t1 t2 s))"
    and "lastActivity (fst (markActivity t1 t2 s)) = t1"
    by (simp_all add: markActivity_def)
  moreover have "idleTimeoutSeconds (config (newTimeService None a b)) = 300"
    by (simp add: newTimeService_def defaultConfig_def)
  ultimately show ?thesis
    by blast
qed

theorem idle_detection_witness:
  "running sampleService
   \<and> \<not> idle (fst (onTick posixHost (sampleStart + 299999) sampleService))
   \<and> idle (fst (onTick posixHost (sampleStart + 300000) sampleService))
   \<and> \<not> idle (fst (markActivity (sampleStart + 300500) (sampleStart + 300500)
                 (fst (onTick posixHost (sampleStart + 300000) sampleService))))"
proof -
  have r: "running sampleService"
    by (simp add: sampleService_simps)
  have r': "running (fst (onTick posixHost (sampleStart + 300000) sampleService))"
    by (simp add: onTick_def sampleService_simps isIdleAt_def defaultConfig_def)
  from idle_detection [OF r, of posixHost "sampleStart + 299999"]
  have a: "\<not> idle (fst (onTick posixHost (sampleStart + 299999) sampleService))"
    by (simp add: sampleService_simps defaultConfig_def)
  from idle_detection [OF r, of posixHost "sampleStart + 300000"]
  have b: "idle (fst (onTick posixHost (sampleStart + 300000) sampleService))"
    by (simp add: sampleService_simps defaultConfig_def)
  from idle_detection [OF r', of posixHost 0 "sampleStart + 300500" "sampleStart + 300500"]
  have c: "\<not> idle (fst (markActivity (sampleStart + 300500) (sampleStart + 300500)
                 (fst (onTick posixHost (sampleStart + 300000) sampleService))))"
    by simp
  from r a b c show ?thesis
    by simp
qed

text \<open>
  Claim C3. A tick taken while the idle condition holds changes nothing of the state but
  the idle flag (set) and \<open>lastTick\<close> (advanced to \<open>now\<close>): the data is the same. When
  activity resumes, \<open>markActivity\<close> moves \<open>lastTick\<close> to its own clock reading \<open>t2\<close>,
  so the next tick counts whole seconds from \<open>t2\<close> only, and the seconds recorded in all
  buckets grow by no more than that: the idle interval is never counted.
\<close>

theorem idle_tick_leaves_data:
  assumes "running s" and "isIdleAt now s"
  shows "fst (onTick h now s) = s\<lparr>idle := True, lastTick := now\<rparr>
       \<and> data (fst (onTick h now s)) = data s
       \<and> lastTick (fst (markActivity t1 t2 (fst (onTick h now s)))) = t2
       \<and> data (fst (markActivity t1 t2 (fst (onTick h now s)))) = data s
       \<and> grandTotal (data (fst (onTick h now' (fst (markActivity t1 t2 (fst (onTick h now s))))))) =
           grandTotal (data s)
             + (if idleTimeoutSeconds (config s) * 1000 \<le> now' - t1 then 0
                else max 0 ((now' - t2) div 1000))"
proof -
  let ?s1 = "fst (onTick h now s)"
  let ?s2 = "fst (markActivity t1 t2 ?s1)"
  have s1: "?s1 = s\<lparr>idle := True, lastTick := now\<rparr>"
    using assms by (simp add: onTick_idle)
  have s2: "?s2 = s\<lparr>idle := False, lastTick := t2, lastActivity := t1\<rparr>"
    unfolding s1 by (simp add: markActivity_def)
  have "grandTotal (data (fst (onTick h now' ?s2))) =
          grandTotal (data s)
            + (if idleTimeoutSeconds (config s) * 1000 \<le> now' - t1 then 0
               else max 0 ((now' - t2) div 1000))"
    unfolding grandTotal_onTick s2 using assms(1) by (simp add: isIdleAt_def)
  moreover have "lastTick ?s2 = t2" and "data ?s2 = data s"
    unfolding s2 by simp_all
  moreover have "data ?s1 = data s"
    unfolding s1 by simp
  ultimately show ?thesis
    using s1 by blast
qed


theorem idle_tick_leaves_data_witness:
  "running sampleService \<and> isIdleAt (sampleStart + 300000) sampleService
   \<and> data (fst (onTick posixHost (sampleStart + 300000) sampleService)) = data sampleService
   \<and> grandTotal (data (fst (onTick posixHost (sampleStart + 901500)
         (fst (markActivity (sampleStart + 900000) (sampleStart + 900000)
            (fst (onTick posixHost (sampleStart + 300000) sampleService))))))) = 1"
proof -
  have r: "running sampleService"
    by (simp add: sampleService_simps)
  have i: "isIdleAt (sampleStart + 300000) sampleService"
    by (simp add: isIdleAt_def sampleService_simps defaultConfig_def)
  have z: "grandTotal (data sampleService) = 0"
    by (simp add: sampleService_simps grandTotal_def)
  have z': "grandTotal \<lparr>workspaceFolders = None\<rparr> = 0"
    by (simp add: grandTotal_def)
  note T = idle_tick_leaves_data [OF r i, of posixHost "sampleStart + 900000" "sampleStart + 900000"
      "sampleStart + 901500"]
  note T1 = T [THEN conjunct2, THEN conjunct1]
  note T2 = T [THEN conjunct2, THEN conjunct2, THEN conjunct2, THEN conjunct2]
  from T2 have "grandTotal (data (fst (onTick posixHost (sampleStart + 901500)
         (fst (markActivity (sampleStart + 900000) (sampleStart + 900000)
            (fst (onTick posixHost (sampleStart + 300000) sampleService))))))) = 1"
    by (simp add: z' sampleService_simps defaultConfig_def)
  with T1 show ?thesis
    using r i by blast
qed

section \<open>Whole seconds per tick\<close>

text \<open>
  Claim C5. \<open>start\<close> installs the tick timer with a period of 1000 ms. A tick of the
  running service while it is not idle adds exactly \<open>floor((now - lastTick) / 1000)\<close>
  seconds to the recorded seconds (nothing when that is not positive). When less than one
  full second has elapsed the tick changes nothing, \<open>lastTick\<close> included, so a later tick
  measures from the same \<open>lastTick\<close> as if the short tick had not happened. (When at least
  one second has elapsed, \<open>lastTick\<close> becomes \<open>now\<close>.)
\<close>

theorem tick_accumulates_whole_seconds:
  assumes "running s" and "\<not> isIdleAt now s"
  shows "(\<not> running s0 \<longrightarrow> tickTimer (fst (start t1 t2 s0)) = Some 1000)
       \<and> grandTotal (data (fst (onTick h now s))) =
           grandTotal (data s) + max 0 ((now - lastTick s) div 1000)
       \<and> (now - lastTick s < 1000 \<longrightarrow>
            fst (onTick h now s) = s \<and> onTick h now' (fst (onTick h now s)) = onTick h now' s)
       \<and> (1000 \<le> now - lastTick s \<longrightarrow> lastTick (fst (onTick h now s)) = now)"
proof -
  have "\<not> running s0 \<longrightarrow> tickTimer (fst (start t1 t2 s0)) = Some 1000"
    by (simp add: start_def)
  moreover have "grandTotal (data (fst (onTick h now s))) =
           grandTotal (data s) + max 0 ((now - lastTick s) div 1000)"
    using assms by (simp add: grandTotal_onTick)
  moreover have "fst (onTick h now s) = s \<and> onTick h now' (fst (onTick h now s)) = onTick h now' s"
    if "now - lastTick s < 1000"
  proof -
    from that have "(now - lastTick s) div 1000 \<le> 0"
      by simp
    with assms show ?thesis
      by (simp add: onTick_short)
  qed
  moreover have "lastTick (fst (onTick h now s)) = now" if "1000 \<le> now - lastTick s"
  proof -
    from that have "1 \<le> (now - lastTick s) div 1000"
      by simp
    with assms show ?thesis
      by (simp add: onTick_def Let_def)
  qed
  ultimately show ?thesis
    by blast
qed

theorem tick_accumulates_whole_seconds_witness:
  "running sampleService \<and> \<not> isIdleAt (sampleStart + 700) sampleService
   \<and> tickTimer sampleService = Some 1000
   \<and> grandTotal (data (fst (onTick posixHost (sampleStart + 700) sampleService))) = 0
   \<and> lastTick (fst (onTick posixHost (sampleStart + 700) sampleService)) = sampleStart
   \<and> grandTotal (data (fst (onTick posixHost (sampleStart + 1400)
        (fst (onTick posixHost (sampleStart + 700) sampleService))))) = 1"
proof -
  have r: "running sampleService"
    by (simp add: sampleService_simps)
  have i: "\<not> isIdleAt (sampleStart + 700) sampleService"
    "\<not> isIdleAt (sampleStart + 1400) sampleService"
    by (simp_all add: isIdleAt_def sampleService_simps defaultConfig_def)
  have z: "grandTotal (data sampleService) = 0"
    by (simp add: sampleService_simps grandTotal_def)
  have st: "sampleService = fst (onActivityForEditor (Some (''/ws/src/a.ts'', Some ''file:///ws''))
      sampleStart sampleStart
      (fst (start sampleStart sampleStart (newTimeService None sampleStart sampleStart))))"
    by (simp add: sampleService_def)
  have tt: "tickTimer sampleService = Some 1000"
    using tick_accumulates_whole_seconds [OF r i(1), of "newTimeService None sampleStart sampleStart"
        sampleStart sampleStart]
    by (simp add: st onActivityForEditor_def markActivity_def newTimeService_def Let_def
        split: prod.splits if_splits)
  have z': "grandTotal \<lparr>workspaceFolders = None\<rparr> = 0"
    by (simp add: grandTotal_def)
  note T = tick_accumulates_whole_seconds [OF r i(1), of _ _ _ posixHost "sampleStart + 1400"]
  from T [THEN conjunct2, THEN conjunct1]
  have a: "grandTotal (data (fst (onTick posixHost (sampleStart + 700) sampleService))) = 0"
    by (simp add: z' sampleService_simps)
  from T [THEN conjunct2, THEN conjunct2, THEN conjunct1]
  have b: "fst (onTick posixHost (sampleStart + 700) sampleService) = sampleService"
    by (simp add: sampleService_simps)
  from tick_accumulates_whole_seconds [OF r i(2), of _ _ _ posixHost, THEN conjunct2, THEN conjunct1]
  have c: "grandTotal (data (fst (onTick posixHost (sampleStart + 1400) sampleService))) = 1"
    by (simp add: z' sampleService_simps)
  from a c r i tt show ?thesis
    unfolding b by (simp add: sampleService_simps)
qed

section \<open>The day bucket's invariant\<close>

lemma bucketInv_emptyBucket: "bucketInv emptyBucket"
  by (simp add: bucketInv_def emptyBucket_def sumObj_def)

text \<open>
  A tick keeps the equality of a bucket when its target entry holds a number, or is absent
  with a key that names nothing in \<^verbatim>\<open>Object.prototype\<close>, and only then (unless it adds
  nothing).
\<close>

lemma bucketInv_bumpBucket_iff:
  assumes "bucketInv b"
  shows "bucketInv (bumpBucket agg fk fo delta b)
           \<longleftrightarrow> delta = 0 \<or> (if agg = File then addsNumber (byFile b) fk
                               else addsNumber (byFolder b) fo)"
  using assms by (auto simp: bucketInv_def bumpBucket_def Let_def sumObj_addTo)

lemma bucketInv_bumpBucket:
  assumes "bucketInv b" and "addsNumber (byFile b) fk" and "addsNumber (byFolder b) fo"
  shows "bucketInv (bumpBucket agg fk fo delta b)"
  using assms by (simp add: bucketInv_bumpBucket_iff)

lemma data_onTick_cases:
  "data (fst (onTick h now s)) = data s
   \<or> data (fst (onTick h now s)) =
        accumulate (aggregateBy (config s)) (orUntitled (activeWorkspace s)) (dateKeyFor now)
          (orUntitled (activeFile s))
          (folderKeyFor h (orUntitled (activeWorkspace s)) (orUntitled (activeFile s)))
          ((now - lastTick s) div 1000) (data s)"
  by (simp add: onTick_def Let_def)

lemma bucket_invariant_numeric_target:
  assumes "\<And>b. bucketAt (data s) w day = Some b \<Longrightarrow> bucketInv b"
    and "bucketAt (data (fst (onTick h now s))) w day = Some b'"
    and "addsNumber
           (byFile (case bucketAt (data s) (orUntitled (activeWorkspace s)) (dateKeyFor now) of
                      None \<Rightarrow> emptyBucket | Some b \<Rightarrow> b))
           (orUntitled (activeFile s))"
    and "addsNumber
           (byFolder (case bucketAt (data s) (orUntitled (activeWorkspace s)) (dateKeyFor now) of
                        None \<Rightarrow> emptyBucket | Some b \<Rightarrow> b))
           (folderKeyFor h (orUntitled (activeWorkspace s)) (orUntitled (activeFile s)))"
  shows "bucketInv b'"
  using data_onTick_cases [of h now s]
proof
  assume "data (fst (onTick h now s)) = data s"
  with assms show ?thesis
    by simp
next
  assume acc: "data (fst (onTick h now s)) =
        accumulate (aggregateBy (config s)) (orUntitled (activeWorkspace s)) (dateKeyFor now)
          (orUntitled (activeFile s))
          (folderKeyFor h (orUntitled (activeWorkspace s)) (orUntitled (activeFile s)))
          ((now - lastTick s) div 1000) (data s)"
  show ?thesis
  proof (cases "w = orUntitled (activeWorkspace s) \<and> day = dateKeyFor now")
    case False
    with assms show ?thesis
      by (auto simp: acc bucketAt_accumulate)
  next
    case True
    have "bucketInv (case bucketAt (data s) w day of None \<Rightarrow> emptyBucket | Some b \<Rightarrow> b)"
      using assms(1) by (simp add: bucketInv_emptyBucket split: option.splits)
    with True assms(2,3,4) show ?thesis
      by (auto simp: acc bucketAt_accumulate intro!: bucketInv_bumpBucket)
  qed
qed

lemma sample_first_tick:
  "bucketAt (data (fst (onTick posixHost (sampleStart + 2500) sampleService)))
     ''file:///ws'' ''2025-03-30'' =
   Some \<lparr>totalSeconds = 2, byFile = [], byFolder = [(''src'', Num 2)]\<rparr>"
  by code_simp

lemma sample_second_tick:
  "bucketAt (data (fst (onTick posixHost (sampleStart + 4000)
       (fst (onTick posixHost (sampleStart + 2500) sampleService)))))
     ''file:///ws'' ''2025-03-30'' =
   Some \<lparr>totalSeconds = 3, byFile = [], byFolder = [(''src'', Num 3)]\<rparr>"
  by code_simp

text \<open>
  Claim C6 fails on a folder whose name is a property of \<^verbatim>\<open>Object.prototype\<close>. The
  service starts without data, so the day bucket of the first tick is created with zero on
  all three fields, which satisfies the equality. With the editor on
  \<^verbatim>\<open>/ws/__proto__/x.ts\<close> the tick adds its two seconds to \<open>totalSeconds\<close> and to no
  entry: the bucket is \<^verbatim>\<open>{ totalSeconds: 2, byFile: {}, byFolder: {} }\<close>, and 2 is not the
  sum of its entries. With the editor on \<^verbatim>\<open>/ws/constructor/x.ts\<close> the entry that the tick
  makes is a string, not a number of seconds. The next tick adds to the total again and
  appends its digit to the string.
\<close>

theorem tick_breaks_bucket_invariant:
  "data (serviceEditing ''/ws/__proto__/x.ts'') = \<lparr>workspaceFolders = None\<rparr>
   \<and> bucketInv emptyBucket
   \<and> bucketAt (data (fst (onTick posixHost (sampleStart + 2500)
                             (serviceEditing ''/ws/__proto__/x.ts''))))
        ''file:///ws'' ''2025-03-30''
      = Some \<lparr>totalSeconds = 2, byFile = [], byFolder = []\<rparr>
   \<and> \<not> bucketInv \<lparr>totalSeconds = 2, byFile = [], byFolder = []\<rparr>
   \<and> bucketAt (data (fst (onTick posixHost (sampleStart + 2500)
                             (serviceEditing ''/ws/constructor/x.ts''))))
        ''file:///ws'' ''2025-03-30''
      = Some \<lparr>totalSeconds = 2, byFile = [],
               byFolder = [(''constructor'', Text ''function Object() { [native code] }2'')]\<rparr>
   \<and> bucketAt (data (fst (onTick posixHost (sampleStart + 4000)
                 (fst (onTick posixHost (sampleStart + 2500)
                             (serviceEditing ''/ws/constructor/x.ts''))))))
        ''file:///ws'' ''2025-03-30''
      = Some \<lparr>totalSeconds = 3, byFile = [],
               byFolder = [(''constructor'', Text ''function Object() { [native code] }21'')]\<rparr>"
  by code_simp

section \<open>Durations\<close>









section \<open>Shape of the persisted value\<close>

lemma getProp_map_snd:
  "getProp (map (\<lambda>p. (fst p, f (snd p))) ob) k = map_option f (getProp ob k)"
  by (induction ob) (auto simp: getProp_def)

lemma getProp_Cons:
  "getProp ((k', v) # ob) k = (if k = k' then Some v else getProp ob k)"
  by (simp add: getProp_def)

lemma jsonAt_workspace:
  "jsonAt (workspaceJson ws) [''dates'', day] =
     map_option bucketJson (case dates ws of None \<Rightarrow> None | Some ds \<Rightarrow> getProp ds day)"
  by (simp add: workspaceJson_def getProp_Cons getProp_map_snd split: option.splits)

lemma jsonAt_bucket:
  "jsonAt (dataJson d) [''workspaceFolders'', w, ''dates'', day] =
     map_option bucketJson (bucketAt d w day)"
proof (cases "workspaceFolders d")
  case None
  then show ?thesis
    by (simp add: dataJson_def bucketAt_def)
next
  case (Some wfs)
  show ?thesis
  proof (cases "getProp wfs w")
    case None
    with Some show ?thesis
      by (simp add: dataJson_def bucketAt_def getProp_Cons getProp_map_snd)
  next
    case (Some ws)
    with \<open>workspaceFolders d = Some wfs\<close> show ?thesis
      using jsonAt_workspace [of ws day]
      by (simp add: dataJson_def bucketAt_def getProp_Cons getProp_map_snd)
  qed
qed

lemma jsonAt_append:
  "jsonAt v (ks @ ks') = (case jsonAt v ks of None \<Rightarrow> None | Some u \<Rightarrow> jsonAt u ks')"
  by (induction v ks rule: jsonAt.induct) (auto split: option.splits)

lemma not_flat_if_bucket:
  assumes "bucketAt d w day = Some b"
  shows "\<not> isFlatMap (dataJson d)"
  using assms by (auto simp: dataJson_def bucketAt_def split: option.splits)

text \<open>
  Against claim C10 as stated: after one accumulating tick of the example service the value
  that is persisted is not a flat map; its only entry, \<^verbatim>\<open>workspaceFolders\<close>, is an object.
\<close>

theorem persisted_state_flat_counterexample:
  "\<not> isFlatMap (dataJson (data (fst (onTick posixHost (sampleStart + 2500) sampleService))))"
  by code_simp

text \<open>
  Claim C10, amended. The aggregation state is a nested map, not a flat one. After every
  accumulating tick the persisted value holds, under the path
  \<^verbatim>\<open>workspaceFolders\<close> / workspace key / \<^verbatim>\<open>dates\<close> / day key, the day bucket as the object
  \<^verbatim>\<open>{ totalSeconds, byFile, byFolder }\<close>, whose \<^verbatim>\<open>byFile\<close> and \<^verbatim>\<open>byFolder\<close> are maps from
  bucket key to seconds one level further down; the value as a whole is not a flat map,
  and it is the value that \<^verbatim>\<open>persist\<close> hands to the storage.
\<close>

theorem persisted_state_nested:
  assumes "running s" and "\<not> isIdleAt now s" and "1 \<le> (now - lastTick s) div 1000"
  shows "\<exists>b. jsonAt (dataJson (data (fst (onTick h now s))))
               [''workspaceFolders'', orUntitled (activeWorkspace s), ''dates'', dateKeyFor now]
             = Some (JObj [(''totalSeconds'', JNum (totalSeconds b)),
                           (''byFile'', JObj (map (\<lambda>p. (fst p, valueJson (snd p))) (byFile b))),
                           (''byFolder'', JObj (map (\<lambda>p. (fst p, valueJson (snd p))) (byFolder b)))])
           \<and> bucketAt (data (fst (onTick h now s))) (orUntitled (activeWorkspace s)) (dateKeyFor now)
               = Some b
           \<and> \<not> isFlatMap (dataJson (data (fst (onTick h now s))))
           \<and> pendingData (persist (fst (onTick h now s)) w)
               = Some (dataJson (data (fst (onTick h now s))))"
proof -
  obtain b where b: "bucketAt (data (fst (onTick h now s))) (orUntitled (activeWorkspace s))
      (dateKeyFor now) = Some b"
    by (simp add: onTick_running_active [OF assms] bucketAt_accumulate)
  moreover have "pendingData (persist (fst (onTick h now s)) w)
               = Some (dataJson (data (fst (onTick h now s))))"
    by (simp add: persist_def save_def)
  ultimately show ?thesis
    using not_flat_if_bucket [OF b]
    by (auto simp add: jsonAt_bucket bucketJson_def numbersJson_def)
qed

theorem persisted_state_nested_witness:
  "running sampleService \<and> \<not> isIdleAt (sampleStart + 2500) sampleService
   \<and> 1 \<le> (sampleStart + 2500 - lastTick sampleService) div 1000
   \<and> jsonAt (dataJson (data (fst (onTick posixHost (sampleStart + 2500) sampleService))))
        [''workspaceFolders'', ''file:///ws'', ''dates'', ''2025-03-30'']
      = Some (JObj [(''totalSeconds'', JNum 2), (''byFile'', JObj []),
                    (''byFolder'', JObj [(''src'', JNum 2)])])"
proof -
  have h1: "running sampleService"
    by (simp add: sampleService_simps)
  have h2: "\<not> isIdleAt (sampleStart + 2500) sampleService"
    by (simp add: isIdleAt_def sampleService_simps defaultConfig_def)
  have h3: "1 \<le> (sampleStart + 2500 - lastTick sampleService) div 1000"
    by (simp add: sampleService_simps)
  have keys: "orUntitled (activeWorkspace sampleService) = ''file:///ws''"
    by (simp add: sampleService_simps orUntitled_def)
  from persisted_state_nested [OF h1 h2 h3, of posixHost]
  obtain b where j: "jsonAt (dataJson (data (fst (onTick posixHost (sampleStart + 2500) sampleService))))
               [''workspaceFolders'', ''file:///ws'', ''dates'', ''2025-03-30'']
             = Some (JObj [(''totalSeconds'', JNum (totalSeconds b)),
                           (''byFile'', JObj (map (\<lambda>p. (fst p, valueJson (snd p))) (byFile b))),
                           (''byFolder'', JObj (map (\<lambda>p. (fst p, valueJson (snd p))) (byFolder b)))])"
    and b: "bucketAt (data (fst (onTick posixHost (sampleStart + 2500) sampleService)))
               ''file:///ws'' ''2025-03-30'' = Some b"
    unfolding keys sample_dateKey by blast
  from b have "b = \<lparr>totalSeconds = 2, byFile = [], byFolder = [(''src'', Num 2)]\<rparr>"
    by (simp add: sample_first_tick)
  with j h1 h2 h3 show ?thesis
    by (simp add: valueJson_def)
qed

section \<open>The debounced save\<close>

lemma pendingInv_newWorld: "pendingInv (newWorld gs)"
  by (simp add: pendingInv_def newWorld_def)

lemma pendingInv_step:
  assumes "pendingInv w" and "step e w = Some w'"
  shows "pendingInv w'"
  using assms
  by (cases e)
    (auto simp: step_def pendingInv_def save_def fireWrite_def settleWrite_def
      split: option.splits if_splits)

lemma pendingInv_run:
  assumes "pendingInv w" and "run es w = Some w'"
  shows "pendingInv w'"
  using assms
proof (induction es arbitrary: w)
  case Nil
  then show ?case by simp
next
  case (Cons e es)
  then show ?case
    by (auto split: option.splits dest: pendingInv_step)
qed

text \<open>
  What every write passes to the store: the pending data at that moment, which is either
  \<^verbatim>\<open>undefined\<close> or the argument of the most recent \<^verbatim>\<open>save\<close> call. Data of an earlier,
  superseded call is never written.
\<close>

lemma fire_writes_pending:
  assumes "step (Fire t) w = Some w'"
  shows "written w' = written w @ [pendingData w]" and "saved w' = saved w"
  using assms by (auto simp: step_def fireWrite_def split: option.splits if_splits)

lemma fire_writes_latest_or_undefined:
  assumes "pendingInv w" and "step (Fire t) w = Some w'"
  shows "\<exists>v. written w' = written w @ [v] \<and> (v = None \<or> (saved w \<noteq> [] \<and> v = Some (last (saved w))))"
  using assms fire_writes_pending(1) [OF assms(2)]
  by (cases "pendingData w") (auto simp: pendingInv_def)

text \<open>
  When no \<^verbatim>\<open>save\<close> is called while an update is in flight (each write settles before the
  next call), at most one timeout is pending, it is the one whose handle is held, and the
  write stores the data of the most recent call.
\<close>

lemma debounceInv_newWorld: "debounceInv (newWorld gs)"
  by (simp add: debounceInv_def newWorld_def)

lemma debounceInv_save: "debounceInv w \<Longrightarrow> debounceInv (save d w)"
  by (auto simp: debounceInv_def save_def split: list.splits option.splits)

lemma debounceInv_advance:
  "debounceInv w \<Longrightarrow> step (Advance ms) w = Some w' \<Longrightarrow> debounceInv w'"
  by (auto simp: debounceInv_def step_def split: if_splits list.splits)

lemma debounceInv_write:
  assumes "debounceInv w" and "run [Fire t, Settle] w = Some w'"
  shows "debounceInv w' \<and> saved w \<noteq> [] \<and> written w' = written w @ [Some (last (saved w))]
         \<and> getProp (globalState w') storageKey = Some (last (saved w))"
  using assms
  by (auto simp: debounceInv_def step_def fireWrite_def settleWrite_def getProp_setProp
      split: option.splits if_splits list.splits)

lemma save_cancels_pending:
  assumes "saveTimer w = Some t" and "t \<noteq> nextHandle w"
  shows "map_of (timers (save d w)) t = None"
  using assms by (auto simp: save_def map_of_eq_None_iff)

text \<open>
  Claim C7 on the run \<open>raceTrace\<close>, from a store that holds version 0. The three calls
  of \<^verbatim>\<open>save\<close> pass versions 0, 1 and 2. The writes are version 0 and then
  \<^verbatim>\<open>undefined\<close>: the continuation of the first write clears \<open>pendingData\<close> after the
  later calls have set it, so the last timeout writes \<^verbatim>\<open>undefined\<close>, which removes the
  key from the store. The data of the most recent call, version 2, is never written.
\<close>

theorem save_race_writes_undefined:
  "map_option written (run raceTrace (newWorld [(storageKey, JObj [(''version'', JNum 0)])])) =
     Some [Some (JObj [(''version'', JNum 0)]), None]
   \<and> map_option saved (run raceTrace (newWorld [(storageKey, JObj [(''version'', JNum 0)])])) =
     Some [JObj [(''version'', JNum 0)], JObj [(''version'', JNum 1)], JObj [(''version'', JNum 2)]]
   \<and> map_option globalState (run raceTrace (newWorld [(storageKey, JObj [(''version'', JNum 0)])])) =
     Some []"
  by code_simp

section \<open>Time series\<close>

lemma length_countDown [simp]: "length (countDown f n) = n"
  by (induction n) simp_all

lemma countDown_map: "countDown f n = map f (rev [0..<n])"
  by (induction n) simp_all

text \<open>The three ranges have 7, 30 and 365 entries, on every host and for all data.\<close>

lemma series_lengths:
  "length (range7d (getTimeSeriesForWorkspaceRanges h t1 t2 t3 u s loaded)) = 7
   \<and> length (range30d (getTimeSeriesForWorkspaceRanges h t1 t2 t3 u s loaded)) = 30
   \<and> length (range1y (getTimeSeriesForWorkspaceRanges h t1 t2 t3 u s loaded)) = 365"
  by (simp add: getTimeSeriesForWorkspaceRanges_def makeRange_def buildContiguous_def Let_def
      split: option.splits)

text \<open>
  The day key of an instant is the date of its UTC day number.
\<close>

text \<open>
  On a host whose offset from UTC never changes, the entry \<open>i\<close> steps before the last is
  dated \<open>i\<close> days before today's UTC day, so a range of \<open>n\<close> entries is dated by the
  \<open>n\<close> consecutive days that end today, each with the total recorded for its date or 0.
\<close>

lemma daysBefore_fixed_offset:
  assumes "\<And>t. tzaOfUtc h t = c" and "\<And>t. tzaOfLocal h t = c"
  shows "daysBefore h today i = today - int i * msPerDay"
  by (simp add: daysBefore_def assms Let_def)

lemma day_of_days_before: "(today - int i * msPerDay) div msPerDay = today div msPerDay - int i"
  using div_mult_self1 [of msPerDay today "- int i"]
  by (simp add: msPerDay_def)

lemma buildContiguous_fixed_offset:
  assumes "\<And>t. tzaOfUtc h t = c" and "\<And>t. tzaOfLocal h t = c"
  shows "buildContiguous h today ds n =
           map (\<lambda>i. (take 10 (isoDate (today div msPerDay - int i)),
                      case getProp ds (take 10 (isoDate (today div msPerDay - int i))) of
                        None \<Rightarrow> 0 | Some b \<Rightarrow> totalSeconds b))
             (rev [0..<n])"
  by (simp add: buildContiguous_def countDown_map daysBefore_fixed_offset [OF assms]
      dateKeyFor_day day_of_days_before Let_def)

text \<open>
  With strings compared by code units, the range \<^verbatim>\<open>'all'\<close> is the recorded days sorted by
  their keys.
\<close>

lemma compareStrings_le: "compareStrings a b \<le> 0 \<longleftrightarrow> a \<le> b"
  by (auto simp: compareStrings_def)

lemma insertEntry_compareStrings: "insertEntry compareStrings x ys = insort_key fst x ys"
  by (induction ys) (simp_all add: compareStrings_le)

lemma sortEntries_compareStrings: "sortEntries compareStrings xs = sort_key fst xs"
proof -
  have "insertEntry compareStrings = insort_key fst"
    by (intro ext) (rule insertEntry_compareStrings)
  then show ?thesis
    by (simp add: sortEntries_def sort_key_def)
qed

lemma rangeAll_sorted:
  assumes "localeCompare h = compareStrings"
    and "workspaceFolders loaded = Some wfs" and "getProp wfs w = Some ws" and "dates ws = Some ds"
    and "w \<noteq> []"
  shows "rangeAll (getTimeSeriesForWorkspaceRanges h t1 t2 t3 (Some w) s loaded) =
           sort_key fst (map (\<lambda>k. (k, case getProp ds k of None \<Rightarrow> 0 | Some b \<Rightarrow> totalSeconds b))
                           (map fst ds))"
  using assms
  by (simp add: getTimeSeriesForWorkspaceRanges_def Let_def sortEntries_compareStrings)

lemma countDown_7: "countDown f 7 = [f 6, f 5, f 4, f 3, f 2, f 1, f 0]"
  by (simp add: eval_nat_numeral)

lemma sampleData_value:
  "sampleData =
     \<lparr>workspaceFolders = Some [(''file:///ws'',
        \<lparr>meta = \<lparr>path = ''file:///ws''\<rparr>,
         dates = Some [(''2025-03-30'',
           \<lparr>totalSeconds = 2, byFile = [], byFolder = [(''src'', Num 2)]\<rparr>)]\<rparr>)]\<rparr>"
  by code_simp

lemma isoDate_spring:
  "take 10 (isoDate 20177) = ''2025-03-30''" "take 10 (isoDate 20176) = ''2025-03-29''"
  "take 10 (isoDate 20175) = ''2025-03-28''" "take 10 (isoDate 20174) = ''2025-03-27''"
  "take 10 (isoDate 20173) = ''2025-03-26''" "take 10 (isoDate 20172) = ''2025-03-25''"
  "take 10 (isoDate 20171) = ''2025-03-24''"
  by code_simp+

lemma isoDate_autumn:
  "take 10 (isoDate 20388) = ''2025-10-27''" "take 10 (isoDate 20386) = ''2025-10-25''"
  "take 10 (isoDate 20385) = ''2025-10-24''" "take 10 (isoDate 20384) = ''2025-10-23''"
  "take 10 (isoDate 20383) = ''2025-10-22''" "take 10 (isoDate 20382) = ''2025-10-21''"
  "take 10 (isoDate 20381) = ''2025-10-20''"
  by code_simp+

lemma berlin_spring_days:
  "daysBefore berlinHost sampleStart 0 div msPerDay = 20177"
  "daysBefore berlinHost sampleStart (Suc 0) div msPerDay = 20177"
  "daysBefore berlinHost sampleStart 2 div msPerDay = 20176"
  "daysBefore berlinHost sampleStart 3 div msPerDay = 20175"
  "daysBefore berlinHost sampleStart 4 div msPerDay = 20174"
  "daysBefore berlinHost sampleStart 5 div msPerDay = 20173"
  "daysBefore berlinHost sampleStart 6 div msPerDay = 20172"
  by (simp_all add: daysBefore_def berlinHost_def sampleStart_def msPerDay_def Let_def)

lemma berlin_autumn_days:
  "daysBefore berlinHost 1761525000000 0 div msPerDay = 20388"
  "daysBefore berlinHost 1761525000000 (Suc 0) div msPerDay = 20386"
  "daysBefore berlinHost 1761525000000 2 div msPerDay = 20385"
  "daysBefore berlinHost 1761525000000 3 div msPerDay = 20384"
  "daysBefore berlinHost 1761525000000 4 div msPerDay = 20383"
  "daysBefore berlinHost 1761525000000 5 div msPerDay = 20382"
  "daysBefore berlinHost 1761525000000 6 div msPerDay = 20381"
  by (simp_all add: daysBefore_def berlinHost_def msPerDay_def Let_def)

text \<open>On a host on UTC the same call lists the seven days that end on 2025-03-30.\<close>

lemma timeSeries_utc_days:
  "range7d (getTimeSeriesForWorkspaceRanges utcHost sampleStart sampleStart sampleStart
              (Some ''file:///ws'') sampleService sampleData) =
     [(''2025-03-24'', 0), (''2025-03-25'', 0), (''2025-03-26'', 0), (''2025-03-27'', 0),
      (''2025-03-28'', 0), (''2025-03-29'', 0), (''2025-03-30'', 2)]"
proof -
  have "sampleStart div msPerDay = 20177"
    by (simp add: sampleStart_def msPerDay_def)
  moreover have "tzaOfUtc utcHost t = 0" and "tzaOfLocal utcHost t = 0" for t
    by (simp_all add: utcHost_def)
  ultimately show ?thesis
    by (simp add: getTimeSeriesForWorkspaceRanges_def sampleData_value
        buildContiguous_fixed_offset [of utcHost 0] upt_rec isoDate_spring getProp_def Let_def)
qed

text \<open>
  Claim C4 on a host on Central European Time, for the example data (2 seconds recorded on
  2025-03-30). At 2025-03-30T23:30Z, local time 01:30 on the day after the clocks went
  forward, the local days "today" and "yesterday" both fall on the UTC date 2025-03-30:
  the 7-day range lists that date twice, with its total twice, and reaches back six days
  only. At 2025-10-27T00:30Z, local time 01:30 on the day after the clocks went back, the
  range steps from 2025-10-25 to 2025-10-27 and has no entry for 2025-10-26. The ranges are
  not the contiguous days ending today.
\<close>

theorem timeSeries_dst_days:
  "range7d (getTimeSeriesForWorkspaceRanges berlinHost sampleStart sampleStart sampleStart
              (Some ''file:///ws'') sampleService sampleData) =
     [(''2025-03-25'', 0), (''2025-03-26'', 0), (''2025-03-27'', 0), (''2025-03-28'', 0),
      (''2025-03-29'', 0), (''2025-03-30'', 2), (''2025-03-30'', 2)]
   \<and> map fst (range7d (getTimeSeriesForWorkspaceRanges berlinHost 1761525000000 1761525000000
              1761525000000 (Some ''file:///ws'') sampleService sampleData)) =
     [''2025-10-20'', ''2025-10-21'', ''2025-10-22'', ''2025-10-23'', ''2025-10-24'',
      ''2025-10-25'', ''2025-10-27'']"
  by (simp add: getTimeSeriesForWorkspaceRanges_def sampleData_value buildContiguous_def
      countDown_7 dateKeyFor_day berlin_spring_days berlin_autumn_days isoDate_spring
      isoDate_autumn getProp_def Let_def)

section \<open>The example JSON host parses what it prints\<close>

subsection \<open>Numbers\<close>

lemma decimal_leading_zero: "hd (decimal n) = CHR ''0'' \<Longrightarrow> n = 0"
proof (induction n rule: decimal.induct)
  case (1 n)
  show ?case
  proof (cases "n < 10")
    case True
    with "1.prems" have "digitChar n = CHR ''0''"
      by (subst (asm) decimal.simps) simp
    then have "(of_char (digitChar n) :: nat) = 48"
      by simp
    with True show ?thesis
      by (simp add: digitChar_code)
  next
    case False
    with "1.prems" have "hd (decimal (n div 10)) = CHR ''0''"
      by (subst (asm) decimal.simps) (simp add: decimal_not_Nil)
    with False 1 have "n div 10 = 0"
      by simp
    with False show ?thesis
      by simp
  qed
qed

lemma decimal_zero: "decimal 0 = ''0''"
  by (subst decimal.simps) (simp add: digitChar_def)

lemma parseNat_decimal:
  assumes "numberEnd rest"
  shows "parseNat (decimal n @ rest) = Some (n, rest)"
proof -
  have t: "takeWhile isDigit (decimal n @ rest) = decimal n"
    and d: "dropWhile isDigit (decimal n @ rest) = rest"
    using assms
    by (auto simp: takeWhile_append dropWhile_append decimal_digits numberEnd_def
        split: list.splits)
  have z: "\<not> (hd (decimal n) = CHR ''0'' \<and> length (decimal n) > 1)"
    using decimal_leading_zero [of n] by (auto simp: decimal_zero)
  have e: "\<not> (rest \<noteq> [] \<and> (hd rest = CHR ''.'' \<or> hd rest = CHR ''e'' \<or> hd rest = CHR ''E''))"
    using assms by (auto simp: numberEnd_def split: list.splits)
  show ?thesis
    unfolding parseNat_def t d Let_def using z e
    by (simp add: decimal_not_Nil decimal_value)
qed

subsection \<open>Strings\<close>

lemma below_sixteen:
  "k < 16 \<Longrightarrow> k = 0 \<or> k = 1 \<or> k = 2 \<or> k = 3 \<or> k = 4 \<or> k = 5 \<or> k = 6 \<or> k = 7 \<or> k = 8
     \<or> k = 9 \<or> k = 10 \<or> k = 11 \<or> k = 12 \<or> k = 13 \<or> k = 14 \<or> k = (15::nat)"
  by arith

lemma hexValue_hexDigit: "k < 16 \<Longrightarrow> hexValue (hexDigit k) = Some k"
  by (drule below_sixteen) (auto simp: hexDigit_def hexValue_def)

lemma hexNumber_escape:
  assumes "n < 256"
  shows "hexNumber [CHR ''0'', CHR ''0'', hexDigit (n div 16), hexDigit (n mod 16)] = Some n"
proof -
  from assms have a: "hexValue (hexDigit (n div 16)) = Some (n div 16)"
    by (intro hexValue_hexDigit) simp
  have b: "hexValue (hexDigit (n mod 16)) = Some (n mod 16)"
    by (intro hexValue_hexDigit) simp
  have z: "hexValue (CHR ''0'') = Some 0"
    by (simp add: hexValue_def)
  show ?thesis
    by (simp add: a b z)
qed

lemma of_char_below: "(of_char c :: nat) < 256"
  by simp

lemma parseChars_plain:
  assumes "c \<noteq> CHR 0x22" and "c \<noteq> CHR 0x5C" and "\<not> (of_char c :: nat) < 32"
  shows "parseChars (Suc f) (c # cs) = consChar c (parseChars f cs)"
  using assms by simp

lemma parseChars_simple_escape:
  assumes "unescape e = Some ch" and "e \<noteq> CHR ''u''"
  shows "parseChars (Suc f) (CHR 0x5C # e # cs) = consChar ch (parseChars f cs)"
  using assms by simp

lemma parseChars_unicode_escape:
  "parseChars (Suc f)
     (CHR 0x5C # CHR ''u'' # CHR ''0'' # CHR ''0'' # hexDigit (of_char c div 16)
        # hexDigit (of_char c mod 16) # cs) =
   consChar c (parseChars f cs)"
  using hexNumber_escape [OF of_char_below, of c]
  by simp

lemma parseChars_escapeChar:
  "parseChars (Suc f) (escapeChar c @ cs) = consChar c (parseChars f cs)"
proof -
  consider "c = CHR 0x22" | "c = CHR 0x5C" | "c = CHR 0x08" | "c = CHR 0x0C" | "c = CHR 0x0A"
    | "c = CHR 0x0D" | "c = CHR 0x09"
    | "c \<noteq> CHR 0x22" "c \<noteq> CHR 0x5C" "c \<noteq> CHR 0x08" "c \<noteq> CHR 0x0C" "c \<noteq> CHR 0x0A"
      "c \<noteq> CHR 0x0D" "c \<noteq> CHR 0x09"
    by blast
  then show ?thesis
  proof cases
    case 8
    show ?thesis
    proof (cases "(of_char c :: nat) < 32")
      case True
      with 8 have "escapeChar c = [CHR 0x5C, CHR ''u'', CHR ''0'', CHR ''0'',
              hexDigit (of_char c div 16), hexDigit (of_char c mod 16)]"
        by (simp add: escapeChar_def)
      then show ?thesis
        using parseChars_unicode_escape [of f c cs] by simp
    next
      case False
      with 8 have "escapeChar c = [c]"
        by (simp add: escapeChar_def)
      with 8 False show ?thesis
        by (simp add: parseChars_plain)
    qed
  qed (simp_all add: escapeChar_def unescape_def)
qed

lemma parseChars_quoted:
  "length s < f \<Longrightarrow>
     parseChars f (concat (map escapeChar s) @ CHR 0x22 # rest) = Some (s, rest)"
proof (induction s arbitrary: f)
  case Nil
  then obtain f' where "f = Suc f'"
    by (cases f) auto
  then show ?case
    by simp
next
  case (Cons c s)
  then obtain f' where f: "f = Suc f'" and l: "length s < f'"
    by (cases f) auto
  have "parseChars f' (concat (map escapeChar s) @ CHR 0x22 # rest) = Some (s, rest)"
    by (rule Cons.IH [OF l])
  then show ?case
    unfolding f using parseChars_escapeChar [of f' c "concat (map escapeChar s) @ CHR 0x22 # rest"]
    by (simp add: consChar_def)
qed

lemma length_escapeChar: "1 \<le> length (escapeChar c)"
  by (simp add: escapeChar_def)

lemma length_quote: "length s + 2 \<le> length (quote s)"
proof -
  have "length s \<le> length (concat (map escapeChar s))"
  proof (induction s)
    case Nil
    show ?case by simp
  next
    case (Cons c s)
    with length_escapeChar [of c] show ?case
      by simp
  qed
  then show ?thesis
    by (simp add: quote_def)
qed

subsection \<open>Spaces\<close>

lemma skipSpace_newline: "skipSpace (newline n @ s) = skipSpace s"
  by (simp add: skipSpace_def newline_def jsonSpace_def dropWhile_append)

lemma skipSpace_blank: "skipSpace (CHR '' '' # s) = skipSpace s"
  by (simp add: skipSpace_def jsonSpace_def)

lemma skipSpace_char: "\<not> jsonSpace c \<Longrightarrow> skipSpace (c # s) = c # s"
  by (simp add: skipSpace_def)

lemma length_newline: "1 \<le> length (newline n)"
  by (simp add: newline_def)

lemma numberEnd_newline: "numberEnd (newline n @ s)"
  by (simp add: numberEnd_def newline_def isDigit_def)

lemma numberEnd_comma: "numberEnd (CHR '','' # s)"
  by (simp add: numberEnd_def isDigit_def)

subsection \<open>The first character of a printed value\<close>

lemma valueStart_not_space: "valueStart c \<Longrightarrow> \<not> jsonSpace c"
  by (auto simp: valueStart_def jsonSpace_def isDigit_def)

lemma valueStart_not_close: "valueStart c \<Longrightarrow> c \<noteq> CHR '']'' \<and> c \<noteq> CHR ''}''"
  by (auto simp: valueStart_def isDigit_def)

lemma showInt_start: "\<exists>c cs. showInt i = c # cs \<and> (c = CHR ''-'' \<or> isDigit c)"
proof (cases "i < 0")
  case True
  then show ?thesis
    by (simp add: showInt_def)
next
  case False
  obtain c cs where d: "decimal (nat i) = c # cs"
    using decimal_not_Nil [of "nat i"] by (cases "decimal (nat i)") auto
  then have "isDigit c"
    using decimal_digits [of c "nat i"] by simp
  with False d show ?thesis
    by (simp add: showInt_def)
qed

lemma printJson_start: "\<exists>c cs. printJson n v = c # cs \<and> valueStart c"
proof (cases v)
  case (JNum i)
  with showInt_start [of i] show ?thesis
    by (auto simp: valueStart_def)
qed (auto simp: valueStart_def quote_def)

lemma skipSpace_printJson: "skipSpace (printJson n v @ s) = printJson n v @ s"
  using printJson_start [of n v] by (auto simp: skipSpace_char valueStart_not_space)

subsection \<open>Dispatch of the parser\<close>

lemma parseValue_null:
  "skipSpace s = ''null'' @ rest \<Longrightarrow> parseValue (Suc f) s = Some (JNull, rest)"
  apply (subst parseValue.simps)
  apply (simp only: list.case)
  apply (simp)
  done

lemma parseValue_true:
  "skipSpace s = ''true'' @ rest \<Longrightarrow> parseValue (Suc f) s = Some (JBool True, rest)"
  apply (subst parseValue.simps)
  apply (simp only: list.case)
  apply (simp)
  done

lemma parseValue_false:
  "skipSpace s = ''false'' @ rest \<Longrightarrow> parseValue (Suc f) s = Some (JBool False, rest)"
  apply (subst parseValue.simps)
  apply (simp only: list.case)
  apply (simp)
  done

lemma parseValue_negative:
  "skipSpace s = CHR ''-'' # cs \<Longrightarrow> parseNat cs = Some (k, rest) \<Longrightarrow>
     parseValue (Suc f) s = Some (JNum (- int k), rest)"
  apply (subst parseValue.simps)
  apply (simp only: list.case)
  apply (simp)
  done

lemma digit_not_special:
  assumes "isDigit c"
  shows "c \<noteq> CHR ''{''" "c \<noteq> CHR ''[''" "c \<noteq> CHR 0x22" "c \<noteq> CHR ''t''" "c \<noteq> CHR ''f''"
    "c \<noteq> CHR ''n''" "c \<noteq> CHR ''-''"
  using assms by (auto simp: isDigit_def)

lemma parseValue_natural:
  assumes "skipSpace s = c # cs" and "isDigit c" and "parseNat (c # cs) = Some (k, rest)"
  shows "parseValue (Suc f) s = Some (JNum (int k), rest)"
  apply (subst parseValue.simps)
  apply (simp only: assms(1) list.case)
  apply (simp only: digit_not_special [OF assms(2)] if_False assms(3) option.case prod.case)
  done

lemma parseValue_string:
  "skipSpace s = CHR 0x22 # cs \<Longrightarrow> parseChars f cs = Some (str, rest) \<Longrightarrow>
     parseValue (Suc f) s = Some (JStr str, rest)"
  apply (subst parseValue.simps)
  apply (simp only: list.case)
  apply (simp)
  done

lemma parseValue_empty_array:
  "skipSpace s = ''[]'' @ rest \<Longrightarrow> parseValue (Suc f) s = Some (JArr [], rest)"
  apply (subst parseValue.simps)
  apply (simp only: list.case)
  apply (simp add: skipSpace_char jsonSpace_def)
  done

lemma parseValue_empty_object:
  "skipSpace s = ''{}'' @ rest \<Longrightarrow> parseValue (Suc f) s = Some (JObj [], rest)"
  apply (subst parseValue.simps)
  apply (simp only: list.case)
  apply (simp add: skipSpace_char jsonSpace_def)
  done

lemma parseValue_array:
  "skipSpace s = CHR ''['' # cs \<Longrightarrow> skipSpace cs = c # cs' \<Longrightarrow> c \<noteq> CHR '']'' \<Longrightarrow>
     parseElements f cs = Some (vs, rest) \<Longrightarrow> parseValue (Suc f) s = Some (JArr vs, rest)"
  apply (subst parseValue.simps)
  apply (simp only: list.case)
  apply (simp)
  done

lemma parseValue_object:
  "skipSpace s = CHR ''{'' # cs \<Longrightarrow> skipSpace cs = c # cs' \<Longrightarrow> c \<noteq> CHR ''}'' \<Longrightarrow>
     parseMembers f cs = Some (kvs, rest) \<Longrightarrow>
     parseValue (Suc f) s = Some (JObj (objectOf kvs), rest)"
  apply (subst parseValue.simps)
  apply (simp only: list.case)
  apply (simp)
  done

lemma parseElements_more:
  "parseValue f s = Some (v, r) \<Longrightarrow> skipSpace r = CHR '','' # cs \<Longrightarrow>
     parseElements f cs = Some (vs, rest) \<Longrightarrow> parseElements (Suc f) s = Some (v # vs, rest)"
  by simp

lemma parseElements_last:
  "parseValue f s = Some (v, r) \<Longrightarrow> skipSpace r = CHR '']'' # rest \<Longrightarrow>
     parseElements (Suc f) s = Some ([v], rest)"
  by simp

lemma parseMembers_more:
  "skipSpace s = CHR 0x22 # cs \<Longrightarrow> parseChars f cs = Some (k, r) \<Longrightarrow>
     skipSpace r = CHR '':'' # cs' \<Longrightarrow> parseValue f cs' = Some (v, r') \<Longrightarrow>
     skipSpace r' = CHR '','' # cs'' \<Longrightarrow> parseMembers f cs'' = Some (kvs, rest) \<Longrightarrow>
     parseMembers (Suc f) s = Some ((k, v) # kvs, rest)"
  by simp

lemma parseMembers_last:
  "skipSpace s = CHR 0x22 # cs \<Longrightarrow> parseChars f cs = Some (k, r) \<Longrightarrow>
     skipSpace r = CHR '':'' # cs' \<Longrightarrow> parseValue f cs' = Some (v, r') \<Longrightarrow>
     skipSpace r' = CHR ''}'' # rest \<Longrightarrow>
     parseMembers (Suc f) s = Some ([(k, v)], rest)"
  by simp

subsection \<open>Arrays and objects\<close>

lemma joinWith_Cons: "xs \<noteq> [] \<Longrightarrow> joinWith s (x # xs) = x @ s @ joinWith s xs"
  by (cases xs) simp_all

lemma setProp_fresh: "k \<notin> fst ` set ob \<Longrightarrow> setProp k v ob = ob @ [(k, v)]"
  by (induction ob) auto

lemma foldl_setProp_distinct:
  "distinct (map fst (acc @ kvs)) \<Longrightarrow>
     foldl (\<lambda>ob p. setProp (fst p) (snd p) ob) acc kvs = acc @ kvs"
proof (induction kvs arbitrary: acc)
  case Nil
  show ?case by simp
next
  case (Cons p kvs)
  from Cons.prems have "fst p \<notin> fst ` set acc"
    by auto
  then have "setProp (fst p) (snd p) acc = acc @ [p]"
    by (simp add: setProp_fresh)
  with Cons.IH [of "acc @ [p]"] Cons.prems show ?case
    by simp
qed

lemma objectOf_distinct: "distinct (map fst kvs) \<Longrightarrow> objectOf kvs = kvs"
  using foldl_setProp_distinct [of "[]" kvs] by (simp add: objectOf_def)

lemma skipSpace_close: "skipSpace (newline n @ CHR '']'' # rest) = CHR '']'' # rest"
  "skipSpace (newline n @ CHR ''}'' # rest) = CHR ''}'' # rest"
  by (simp_all add: skipSpace_newline skipSpace_char jsonSpace_def)

lemma skipSpace_comma: "skipSpace (CHR '','' # rest) = CHR '','' # rest"
  by (simp add: skipSpace_char jsonSpace_def)

lemma skipSpace_colon: "skipSpace (CHR '':'' # rest) = CHR '':'' # rest"
  by (simp add: skipSpace_char jsonSpace_def)

lemma parseElements_printed:
  assumes "\<And>x f s r. x \<in> set xs \<Longrightarrow> numberEnd r \<Longrightarrow> length (printJson (Suc n) x) \<le> f \<Longrightarrow>
             skipSpace s = printJson (Suc n) x @ r \<Longrightarrow> parseValue f s = Some (x, r)"
    and "xs \<noteq> []"
    and "length (joinWith (CHR '','' # newline (Suc n)) (map (printJson (Suc n)) xs)
                 @ newline n @ '']'') < f"
    and "skipSpace s = joinWith (CHR '','' # newline (Suc n)) (map (printJson (Suc n)) xs)
                        @ newline n @ CHR '']'' # rest"
  shows "parseElements f s = Some (xs, rest)"
  using assms
proof (induction xs arbitrary: f s)
  case Nil
  then show ?case by simp
next
  case (Cons x xs)
  from Cons.prems(3) obtain f' where f: "f = Suc f'"
    by (cases f) auto
  show ?case
  proof (cases "xs = []")
    case True
    with Cons.prems(4) have s: "skipSpace s = printJson (Suc n) x @ (newline n @ CHR '']'' # rest)"
      by simp
    from True Cons.prems(3) f have "length (printJson (Suc n) x) \<le> f'"
      by simp
    then have "parseValue f' s = Some (x, newline n @ CHR '']'' # rest)"
      using Cons.prems(1) [OF _ numberEnd_newline _ s] by simp
    then show ?thesis
      unfolding f True by (rule parseElements_last) (rule skipSpace_close)
  next
    case False
    let ?tail = "joinWith (CHR '','' # newline (Suc n)) (map (printJson (Suc n)) xs)
                   @ newline n @ CHR '']'' # rest"
    from False Cons.prems(4)
    have s: "skipSpace s = printJson (Suc n) x @ (CHR '','' # newline (Suc n) @ ?tail)"
      by (simp add: joinWith_Cons)
    from False Cons.prems(3) f have l: "length (printJson (Suc n) x) \<le> f'"
      and l': "length (joinWith (CHR '','' # newline (Suc n)) (map (printJson (Suc n)) xs)
                 @ newline n @ '']'') < f'"
      by (simp_all add: joinWith_Cons)
    have v: "parseValue f' s = Some (x, CHR '','' # newline (Suc n) @ ?tail)"
      using Cons.prems(1) [OF _ numberEnd_comma l s] by simp
    obtain y ys where ys: "xs = y # ys"
      using False by (cases xs) auto
    obtain c cs where "printJson (Suc n) y = c # cs" and "valueStart c"
      using printJson_start by blast
    then have "skipSpace ?tail = ?tail"
      by (cases ys) (simp_all add: ys skipSpace_char valueStart_not_space)
    then have t: "skipSpace (newline (Suc n) @ ?tail) = ?tail"
      by (simp add: skipSpace_newline)
    have "parseElements f' (newline (Suc n) @ ?tail) = Some (xs, rest)"
      using Cons.IH [OF _ False l' t] Cons.prems(1) by simp
    with v show ?thesis
      unfolding f by (rule parseElements_more [OF _ skipSpace_comma])
  qed
qed

declare parseValue.simps [simp del]

lemma quote_Cons: "quote k = CHR 0x22 # concat (map escapeChar k) @ [CHR 0x22]"
  by (simp add: quote_def)

lemma parseMembers_printed:
  assumes "\<And>p f s r. p \<in> set kvs \<Longrightarrow> numberEnd r \<Longrightarrow> length (printJson (Suc n) (snd p)) \<le> f \<Longrightarrow>
             skipSpace s = printJson (Suc n) (snd p) @ r \<Longrightarrow> parseValue f s = Some (snd p, r)"
    and "kvs \<noteq> []"
    and "length (joinWith (CHR '','' # newline (Suc n))
                   (map (\<lambda>p. quote (fst p) @ '': '' @ printJson (Suc n) (snd p)) kvs)
                 @ newline n @ ''}'') < f"
    and "skipSpace s = joinWith (CHR '','' # newline (Suc n))
                          (map (\<lambda>p. quote (fst p) @ '': '' @ printJson (Suc n) (snd p)) kvs)
                        @ newline n @ CHR ''}'' # rest"
  shows "parseMembers f s = Some (kvs, rest)"
  using assms
proof (induction kvs arbitrary: f s)
  case Nil
  then show ?case by simp
next
  case (Cons p kvs)
  obtain k v where p: "p = (k, v)"
    by (cases p)
  from Cons.prems(3) obtain f' where f: "f = Suc f'"
    by (cases f) auto
  let ?member = "\<lambda>p. quote (fst p) @ '': '' @ printJson (Suc n) (snd p)"
  let ?sep = "CHR '','' # newline (Suc n)"
  have pv: "parseValue f' (CHR '' '' # printJson (Suc n) v @ r) = Some (v, r)"
    if "numberEnd r" and "length (printJson (Suc n) v) \<le> f'" for r
    using Cons.prems(1) [where p = p and f = f' and r = r
        and s = "CHR '' '' # printJson (Suc n) v @ r"] that
    by (simp add: p skipSpace_blank skipSpace_printJson)
  have pk: "parseChars f' (concat (map escapeChar k) @ CHR 0x22 # r) = Some (k, r)"
    if "length (quote k) \<le> f'" for r
    using that length_quote [of k] by (intro parseChars_quoted) simp
  show ?case
  proof (cases "kvs = []")
    case True
    let ?r = "newline n @ CHR ''}'' # rest"
    from True Cons.prems(4)
    have s: "skipSpace s =
        CHR 0x22 # (concat (map escapeChar k) @ CHR 0x22 # (CHR '':'' # CHR '' '' # printJson (Suc n) v @ ?r))"
      by (simp add: p quote_Cons)
    from True Cons.prems(3) f have l: "length (quote k) \<le> f'" "length (printJson (Suc n) v) \<le> f'"
      by (simp_all add: p)
    show ?thesis
      unfolding f True p
      by (rule parseMembers_last [OF s pk [OF l(1)] skipSpace_colon
            pv [OF numberEnd_newline l(2)] skipSpace_close(2)])
  next
    case False
    let ?tail = "joinWith ?sep (map ?member kvs) @ newline n @ CHR ''}'' # rest"
    let ?r = "CHR '','' # newline (Suc n) @ ?tail"
    from False Cons.prems(4)
    have s: "skipSpace s =
        CHR 0x22 # (concat (map escapeChar k) @ CHR 0x22 # (CHR '':'' # CHR '' '' # printJson (Suc n) v @ ?r))"
      by (simp add: p quote_Cons joinWith_Cons)
    from False Cons.prems(3) f have l: "length (quote k) \<le> f'" "length (printJson (Suc n) v) \<le> f'"
      and l': "length (joinWith ?sep (map ?member kvs) @ newline n @ ''}'') < f'"
      by (simp_all add: p joinWith_Cons)
    obtain q qs where qs: "kvs = q # qs"
      using False by (cases kvs) auto
    have "skipSpace ?tail = ?tail"
      by (cases qs) (simp_all add: qs quote_Cons skipSpace_char jsonSpace_def)
    then have t: "skipSpace (newline (Suc n) @ ?tail) = ?tail"
      by (simp add: skipSpace_newline)
    have more: "parseMembers f' (newline (Suc n) @ ?tail) = Some (kvs, rest)"
      using Cons.IH [OF _ False l' t] Cons.prems(1) by simp
    show ?thesis
      unfolding f p
      by (rule parseMembers_more [OF s pk [OF l(1)] skipSpace_colon
            pv [OF numberEnd_comma l(2)] skipSpace_comma more])
  qed
qed

lemma parseValue_printJson:
  "wfJson v \<Longrightarrow> numberEnd rest \<Longrightarrow> length (printJson n v) \<le> f \<Longrightarrow>
     skipSpace s = printJson n v @ rest \<Longrightarrow> parseValue f s = Some (v, rest)"
proof (induction n v arbitrary: f s rest rule: printJson.induct)
  case (1 n)
  then obtain f' where "f = Suc f'"
    by (cases f) auto
  with 1 show ?case
    by (simp add: parseValue_null)
next
  case (2 n b)
  then obtain f' where "f = Suc f'"
    by (cases f) (auto split: if_splits)
  with 2 show ?case
    by (cases b) (simp_all add: parseValue_true parseValue_false)
next
  case (3 n i)
  then obtain f' where f: "f = Suc f'"
    using showInt_start [of i] by (cases f) auto
  show ?case
  proof (cases "i < 0")
    case True
    with 3 have "skipSpace s = CHR ''-'' # (decimal (nat (- i)) @ rest)"
      by (simp add: showInt_def)
    then have "parseValue (Suc f') s = Some (JNum (- int (nat (- i))), rest)"
      by (rule parseValue_negative) (rule parseNat_decimal [OF "3.prems"(2)])
    with True show ?thesis
      by (simp add: f)
  next
    case False
    obtain c cs where d: "decimal (nat i) = c # cs"
      using decimal_not_Nil [of "nat i"] by (cases "decimal (nat i)") auto
    then have c: "isDigit c"
      using decimal_digits [of c "nat i"] by simp
    from False 3 d have s: "skipSpace s = c # (cs @ rest)"
      by (simp add: showInt_def)
    have "parseNat (c # (cs @ rest)) = Some (nat i, rest)"
      using parseNat_decimal [OF "3.prems"(2), of "nat i"] d by simp
    with s c have "parseValue (Suc f') s = Some (JNum (int (nat i)), rest)"
      by (rule parseValue_natural)
    with False show ?thesis
      by (simp add: f)
  qed
next
  case (4 n str)
  then obtain f' where f: "f = Suc f'"
    by (cases f) (auto simp: quote_def)
  from 4 have s: "skipSpace s = CHR 0x22 # (concat (map escapeChar str) @ CHR 0x22 # rest)"
    by (simp add: quote_def)
  from "4.prems"(3) f length_quote [of str] have "length str < f'"
    by simp
  then have "parseChars f' (concat (map escapeChar str) @ CHR 0x22 # rest) = Some (str, rest)"
    by (rule parseChars_quoted)
  with s show ?case
    unfolding f by (rule parseValue_string)
next
  case (5 n xs)
  then obtain f' where f: "f = Suc f'"
    by (cases f) (auto split: if_splits)
  show ?case
  proof (cases "xs = []")
    case True
    with 5 show ?thesis
      by (simp add: f parseValue_empty_array)
  next
    case False
    let ?body = "joinWith (CHR '','' # newline (Suc n)) (map (printJson (Suc n)) xs)"
    let ?cs = "newline (Suc n) @ ?body @ newline n @ CHR '']'' # rest"
    from False "5.prems"(4) have s: "skipSpace s = CHR ''['' # ?cs"
      by simp
    obtain y ys where ys: "xs = y # ys"
      using False by (cases xs) auto
    obtain c cs where c: "printJson (Suc n) y = c # cs" and vs: "valueStart c"
      using printJson_start by blast
    have st: "skipSpace ?cs = ?body @ newline n @ CHR '']'' # rest"
      using c vs by (cases ys) (simp_all add: ys skipSpace_newline skipSpace_char valueStart_not_space)
    obtain c' cs' where c': "?body @ newline n @ CHR '']'' # rest = c' # cs'" and "c' = c"
      using c by (cases ys) (simp_all add: ys)
    with vs have nc: "c' \<noteq> CHR '']''"
      using valueStart_not_close by blast
    from False "5.prems"(3) f length_newline [of "Suc n"]
    have l: "length (?body @ newline n @ '']'') < f'"
      by simp
    have "parseElements f' ?cs = Some (xs, rest)"
    proof (rule parseElements_printed [OF _ False l st])
      fix x g t r
      assume "x \<in> set xs" "numberEnd r" "length (printJson (Suc n) x) \<le> g"
        "skipSpace t = printJson (Suc n) x @ r"
      moreover from \<open>x \<in> set xs\<close> "5.prems"(1) have "wfJson x"
        by (simp add: list_all_iff)
      ultimately show "parseValue g t = Some (x, r)"
        using "5.IH" [OF False] by blast
    qed
    with s st c' nc show ?thesis
      unfolding f by (intro parseValue_array) simp_all
  qed
next
  case (6 n kvs)
  then obtain f' where f: "f = Suc f'"
    by (cases f) (auto split: if_splits)
  show ?case
  proof (cases "kvs = []")
    case True
    with 6 show ?thesis
      by (simp add: f parseValue_empty_object)
  next
    case False
    let ?body = "joinWith (CHR '','' # newline (Suc n))
                   (map (\<lambda>p. quote (fst p) @ '': '' @ printJson (Suc n) (snd p)) kvs)"
    let ?cs = "newline (Suc n) @ ?body @ newline n @ CHR ''}'' # rest"
    from False "6.prems"(4) have s: "skipSpace s = CHR ''{'' # ?cs"
      by simp
    obtain q qs where qs: "kvs = q # qs"
      using False by (cases kvs) auto
    have st: "skipSpace ?cs = ?body @ newline n @ CHR ''}'' # rest"
      by (cases qs) (simp_all add: qs skipSpace_newline quote_Cons skipSpace_char jsonSpace_def)
    obtain cs' where c': "?body @ newline n @ CHR ''}'' # rest = CHR 0x22 # cs'"
      by (cases qs) (simp_all add: qs quote_Cons)
    from False "6.prems"(3) f length_newline [of "Suc n"]
    have l: "length (?body @ newline n @ ''}'') < f'"
      by simp
    have "parseMembers f' ?cs = Some (kvs, rest)"
    proof (rule parseMembers_printed [OF _ False l st])
      fix p g t r
      assume "p \<in> set kvs" "numberEnd r" "length (printJson (Suc n) (snd p)) \<le> g"
        "skipSpace t = printJson (Suc n) (snd p) @ r"
      moreover from \<open>p \<in> set kvs\<close> "6.prems"(1) have "wfJson (snd p)"
        by (simp add: list_all_iff)
      ultimately show "parseValue g t = Some (snd p, r)"
        using "6.IH" [OF False] by blast
    qed
    moreover from "6.prems"(1) have "objectOf kvs = kvs"
      by (simp add: objectOf_distinct)
    ultimately show ?thesis
      using s st c' unfolding f
      by (auto dest: parseValue_object [where f = f' and s = s])
  qed
qed

text \<open>Every well-formed value is parsed back from its printed text.\<close>

lemma parseJson_printJson: "wfJson v \<Longrightarrow> parseJson (printJson 0 v) = Some v"
proof -
  assume "wfJson v"
  then have "parseValue (2 * length (printJson 0 v) + 2) (printJson 0 v) = Some (v, [])"
    by (rule parseValue_printJson) (simp_all add: numberEnd_def skipSpace_printJson [of 0 v "[]", simplified])
  then show ?thesis
    by (simp add: parseJson_def skipSpace_def)
qed

section \<open>Data built by ticks survives the JSON round trip\<close>

lemma keys_setProp:
  "map fst (setProp k v ob) = (if k \<in> set (map fst ob) then map fst ob else map fst ob @ [k])"
  by (induction ob) auto

lemma distinctKeys_setProp: "distinctKeys ob \<Longrightarrow> distinctKeys (setProp k v ob)"
  by (simp add: distinctKeys_def keys_setProp)

lemma list_all_setProp:
  "list_all (\<lambda>p. P (snd p)) ob \<Longrightarrow> P v \<Longrightarrow> list_all (\<lambda>p. P (snd p)) (setProp k v ob)"
  by (induction ob) auto

lemma list_all_getProp:
  "list_all (\<lambda>p. P (snd p)) ob \<Longrightarrow> getProp ob k = Some v \<Longrightarrow> P v"
  by (induction ob) (auto simp: getProp_def split: if_splits)

lemma distinctKeys_addTo: "distinctKeys ob \<Longrightarrow> distinctKeys (addTo k delta ob)"
  by (simp add: addTo_def distinctKeys_setProp split: option.splits jsval.splits)

lemma wfBucket_bumpBucket: "wfBucket b \<Longrightarrow> wfBucket (bumpBucket agg fk fo delta b)"
  by (simp add: wfBucket_def bumpBucket_def Let_def distinctKeys_addTo)

lemma wfBucket_emptyBucket: "wfBucket emptyBucket"
  by (simp add: wfBucket_def emptyBucket_def distinctKeys_def)

lemma wfData_accumulate:
  assumes "wfData d"
  shows "wfData (accumulate agg w day fk fo delta d)"
proof -
  define wfs where "wfs = (case workspaceFolders d of None \<Rightarrow> [] | Some x \<Rightarrow> x)"
  define ws where "ws = (case getProp wfs w of
                  None \<Rightarrow> \<lparr>meta = \<lparr>path = w\<rparr>, dates = Some []\<rparr>
                | Some x \<Rightarrow> x)"
  define ds where "ds = (case dates ws of None \<Rightarrow> [] | Some x \<Rightarrow> x)"
  define b where "b = (case getProp ds day of None \<Rightarrow> emptyBucket | Some x \<Rightarrow> x)"
  define ws' where "ws' = ws\<lparr>dates := Some (setProp day (bumpBucket agg fk fo delta b) ds)\<rparr>"
  have acc: "accumulate agg w day fk fo delta d = d\<lparr>workspaceFolders := Some (setProp w ws' wfs)\<rparr>"
    by (simp add: accumulate_def Let_def wfs_def ws_def ds_def b_def ws'_def)
  from assms have wfs: "distinctKeys wfs" "list_all (\<lambda>p. wfWorkspace (snd p)) wfs"
    by (auto simp: wfData_def wfs_def distinctKeys_def split: option.splits)
  have "wfWorkspace ws"
    using wfs(2) list_all_getProp [of wfWorkspace wfs w]
    by (auto simp: ws_def wfWorkspace_def distinctKeys_def split: option.splits)
  then have ds: "distinctKeys ds" "list_all (\<lambda>p. wfBucket (snd p)) ds"
    by (auto simp: wfWorkspace_def ds_def distinctKeys_def split: option.splits)
  have "wfBucket b"
    using ds(2) list_all_getProp [of wfBucket ds day]
    by (auto simp: b_def wfBucket_emptyBucket split: option.splits)
  then have "wfWorkspace ws'"
    using ds by (simp add: ws'_def wfWorkspace_def distinctKeys_setProp list_all_setProp
        wfBucket_bumpBucket)
  with wfs show ?thesis
    unfolding acc by (simp add: wfData_def distinctKeys_setProp list_all_setProp)
qed

lemma wfData_onTick: "wfData (data s) \<Longrightarrow> wfData (data (fst (onTick h now s)))"
  using data_onTick_cases [of h now s] by (auto simp: wfData_accumulate)

lemma wfData_new: "wfData (data (newTimeService cfg t1 t2))"
  by (simp add: wfData_def newTimeService_def)

lemma distinct_keys_map: "distinct (map fst (map (\<lambda>p. (fst p, f (snd p))) ob)) = distinct (map fst ob)"
  by (simp add: comp_def)

lemma wfJson_valueJson: "wfJson (valueJson v)"
  by (cases v) (simp_all add: valueJson_def)

lemma wfJson_numbersJson: "distinctKeys ob \<Longrightarrow> wfJson (numbersJson ob)"
  by (simp add: numbersJson_def distinctKeys_def comp_def list_all_iff wfJson_valueJson)

lemma wfJson_bucketJson: "wfBucket b \<Longrightarrow> wfJson (bucketJson b)"
  by (simp add: bucketJson_def wfBucket_def wfJson_numbersJson)

lemma wfJson_workspaceJson: "wfWorkspace ws \<Longrightarrow> wfJson (workspaceJson ws)"
  by (auto simp: workspaceJson_def wfWorkspace_def distinctKeys_def comp_def list_all_iff
      wfJson_bucketJson split: option.splits)

lemma wfJson_dataJson: "wfData d \<Longrightarrow> wfJson (dataJson d)"
  by (auto simp: dataJson_def wfData_def distinctKeys_def comp_def list_all_iff
      wfJson_workspaceJson split: option.splits)

text \<open>
  Whatever the ticks have built from well-formed data, the example host parses back from
  the text it prints for it.
\<close>

lemma persisted_data_roundtrip:
  "wfData d \<Longrightarrow> parse jsonHost (stringify jsonHost (dataJson d)) = Some (dataJson d)"
  by (simp add: jsonHost_def parseJson_printJson wfJson_dataJson)

section \<open>Export and import\<close>

lemma sample_json_roundtrip:
  "parse jsonHost (stringify jsonHost (load sampleWorld)) = Some (load sampleWorld)"
  by code_simp

text \<open>Timer handles are never reused: every pending timeout has a handle below the next one.\<close>

lemma handles_below_next_step:
  assumes "\<forall>p\<in>set (timers w). fst p < nextHandle w" and "step e w = Some w'"
  shows "\<forall>p\<in>set (timers w'). fst p < nextHandle w'"
proof (cases e)
  case (Save d)
  with assms show ?thesis
    by (fastforce simp: step_def save_def less_Suc_eq split: option.splits)
next
  case (Advance ms)
  with assms show ?thesis
    by (fastforce simp: step_def split: if_splits)
next
  case (Fire t)
  with assms show ?thesis
    by (fastforce simp: step_def fireWrite_def split: option.splits if_splits)
next
  case Settle
  with assms show ?thesis
    by (fastforce simp: step_def settleWrite_def split: if_splits)
qed

lemma handles_below_next_run:
  assumes "\<forall>p\<in>set (timers w). fst p < nextHandle w" and "run es w = Some w'"
  shows "\<forall>p\<in>set (timers w'). fst p < nextHandle w'"
  using assms
proof (induction es arbitrary: w)
  case Nil
  then show ?case by simp
next
  case (Cons e es)
  from Cons.prems(2) obtain w1 where s: "step e w = Some w1" and r: "run es w1 = Some w'"
    by (auto split: option.splits)
  from handles_below_next_step [OF Cons.prems(1) s] r show ?case
    by (rule Cons.IH)
qed

lemma next_handle_fresh:
  assumes "run es (newWorld gs) = Some w"
  shows "map_of (timers w) (nextHandle w) = None"
proof -
  have "\<forall>p\<in>set (timers w). fst p < nextHandle w"
    by (rule handles_below_next_run [OF _ assms]) (simp add: newWorld_def)
  then show ?thesis
    by (force simp: map_of_eq_None_iff)
qed

lemma map_of_filter_None: "map_of xs k = None \<Longrightarrow> map_of (filter P xs) k = None"
  by (induction xs) auto

lemma import_then_write:
  assumes "map_of (timers w) (nextHandle w) = None"
  shows "run [Advance 1000, Fire (nextHandle w), Settle] (save d w) =
           Some ((save d w)
             \<lparr>clock := clock w + 1000,
              timers := filter (\<lambda>p. fst p \<noteq> nextHandle w) (timers (save d w)),
              globalState := setProp storageKey d (globalState w),
              written := written w @ [Some d],
              inflight := inflight w,
              saveTimer := None,
              pendingData := None\<rparr>)"
proof -
  have "map_of (timers (save d w)) (nextHandle w) = Some (clock w + 1000)"
    using assms by (auto simp: save_def map_add_def map_of_filter_None split: option.splits)
  then show ?thesis
    by (simp add: step_def fireWrite_def settleWrite_def save_def)
qed

text \<open>
  What \<^verbatim>\<open>importFromJson\<close> does with a text: when \<^verbatim>\<open>JSON.parse\<close> rejects it nothing is
  saved, and otherwise \<^verbatim>\<open>save\<close> is called with the value parsed from it, which becomes
  the pending data. \<^verbatim>\<open>exportToJson\<close> returns the text of the value that \<open>load\<close> returns.
\<close>

lemma importFromJson_saves_parsed:
  "parse j text = None \<Longrightarrow> importFromJson j text w = None"
  "parse j text = Some d \<Longrightarrow> importFromJson j text w = Some (save d w)"
  "parse j text = Some d \<Longrightarrow>
     map_option pendingData (importFromJson j text w) = Some (Some d)
     \<and> map_option saved (importFromJson j text w) = Some (saved w @ [d])"
  "exportToJson j w = stringify j (load w)"
  by (simp_all add: importFromJson_def exportToJson_def save_def)

text \<open>
  When the write of the import is left alone (its timeout fires a second after the call,
  and neither another call of \<^verbatim>\<open>save\<close> nor the settling of an earlier update comes in
  between), and the host's JSON functions take the stored value to a text and back,
  importing the exported JSON stores the value that \<open>load\<close> returned.
\<close>

lemma export_import_undisturbed:
  assumes "run es (newWorld gs) = Some w"
    and "parse j (stringify j (load w)) = Some (load w)"
  shows "case importFromJson j (exportToJson j w) w of
           None \<Rightarrow> False
         | Some w1 \<Rightarrow>
             (case run [Advance 1000, Fire (nextHandle w), Settle] w1 of
                None \<Rightarrow> False
              | Some w2 \<Rightarrow>
                  load w2 = load w
                  \<and> getProp (globalState w2) storageKey = Some (load w)
                  \<and> written w2 = written w @ [Some (load w)]
                  \<and> pendingData w2 = None)"
proof -
  have imp: "importFromJson j (exportToJson j w) w = Some (save (load w) w)"
    using assms(2) by (simp add: importFromJson_def exportToJson_def)
  show ?thesis
    unfolding imp using import_then_write [OF next_handle_fresh [OF assms(1)], of "load w"]
    by (simp add: getProp_setProp load_def)
qed

lemma sampleWorld_load: "load sampleWorld = dataJson sampleData"
  by (simp add: load_def sampleWorld_def newWorld_def getProp_def)

text \<open>
  With the example host in place of the host's JSON functions, importing the exported JSON
  leaves the stored value as it is, for every well-formed value in every state of the
  storage that a run leads to.
\<close>

lemma export_import_jsonHost:
  assumes "run es (newWorld gs) = Some w" and "wfJson (load w)"
  shows "map_option load
           (Option.bind (importFromJson jsonHost (exportToJson jsonHost w) w)
              (run [Advance 1000, Fire (nextHandle w), Settle])) = Some (load w)"
proof -
  have "importFromJson jsonHost (exportToJson jsonHost w) w = Some (save (load w) w)"
    using assms(2) by (simp add: importFromJson_def exportToJson_def jsonHost_def parseJson_printJson)
  then show ?thesis
    using import_then_write [OF next_handle_fresh [OF assms(1)], of "load w"]
    by (simp add: getProp_setProp load_def)
qed

text \<open>
  An import while an update is in flight, for any stored value \<open>v\<close> that the host's JSON
  functions take to a text and back: \<^verbatim>\<open>save\<close> has been called with \<open>v\<close> and its
  timeout has fired; the import of the exported text calls \<^verbatim>\<open>save\<close> with \<open>v\<close> again;
  the earlier update settles; a second later the timeout of the import fires. That write
  passes \<^verbatim>\<open>undefined\<close>, and the store is left without the key.
\<close>

lemma import_during_update:
  assumes "parse j (stringify j v) = Some v"
  shows "run [Save v, Advance 1000, Fire 0] (newWorld [(storageKey, v)]) =
           Some \<lparr>pendingData = Some v, saveTimer = Some 0, globalState = [(storageKey, v)],
                 timers = [], clock = 1000, nextHandle = 1, inflight = 1,
                 written = [Some v], saved = [v]\<rparr>"
    and "Option.bind (run [Save v, Advance 1000, Fire 0] (newWorld [(storageKey, v)]))
           (\<lambda>w. Option.bind (importFromJson j (exportToJson j w) w)
                  (run [Settle, Advance 1000, Fire 1])) =
           Some \<lparr>pendingData = None, saveTimer = None, globalState = [],
                 timers = [], clock = 2000, nextHandle = 2, inflight = 1,
                 written = [Some v, None], saved = [v, v]\<rparr>"
  using assms
  by (simp_all add: step_def save_def fireWrite_def settleWrite_def newWorld_def
      importFromJson_def exportToJson_def load_def getProp_def delProp_def)

text \<open>
  Claim C8 fails when the exported JSON is imported while an update is in flight (the run
  \<open>importRace\<close>). Before the import the store holds the example data, and the host's
  JSON functions take it to a text and back unchanged. The import calls \<^verbatim>\<open>save\<close> with
  that value. Then the continuation of the earlier write clears \<open>pendingData\<close>, and the
  timeout of the import writes \<^verbatim>\<open>undefined\<close>: the key is removed from the store, and
  \<^verbatim>\<open>load\<close> returns \<^verbatim>\<open>{}\<close> instead of the data. (What the import saves is what its
  argument parses to: the array of 7 for the text \<^verbatim>\<open>[7]\<close>, and nothing for a text that
  is not JSON.)
\<close>

theorem import_during_update_deletes_data:
  "map_option load (run [Save (dataJson sampleData), Advance 1000, Fire 0] sampleWorld)
     = Some (dataJson sampleData)
   \<and> map_option (\<lambda>w. parse jsonHost (exportToJson jsonHost w))
        (run [Save (dataJson sampleData), Advance 1000, Fire 0] sampleWorld)
     = Some (Some (dataJson sampleData))
   \<and> map_option saved importRace = Some [dataJson sampleData, dataJson sampleData]
   \<and> map_option written importRace = Some [Some (dataJson sampleData), None]
   \<and> map_option globalState importRace = Some []
   \<and> map_option load importRace = Some (JObj [])
   \<and> dataJson sampleData \<noteq> JObj []
   \<and> map_option pendingData (importFromJson jsonHost ''[7]'' (newWorld []))
     = Some (Some (JArr [JNum 7]))
   \<and> importFromJson jsonHost ''[7'' (newWorld []) = None"
proof -
  have i1: "map_option pendingData (importFromJson jsonHost ''[7]'' (newWorld []))
     = Some (Some (JArr [JNum 7]))"
    by code_simp
  have i2: "importFromJson jsonHost ''[7'' (newWorld []) = None"
    by code_simp
  have rt: "parse jsonHost (stringify jsonHost (dataJson sampleData)) = Some (dataJson sampleData)"
    using sample_json_roundtrip by (simp add: sampleWorld_load)
  have ne: "dataJson sampleData \<noteq> JObj []"
    by code_simp
  have pre: "run [Save (dataJson sampleData), Advance 1000, Fire 0] sampleWorld =
           Some \<lparr>pendingData = Some (dataJson sampleData), saveTimer = Some 0,
                 globalState = [(storageKey, dataJson sampleData)],
                 timers = [], clock = 1000, nextHandle = 1, inflight = 1,
                 written = [Some (dataJson sampleData)], saved = [dataJson sampleData]\<rparr>"
    unfolding sampleWorld_def by (rule import_during_update(1) [OF rt])
  have race: "importRace =
           Some \<lparr>pendingData = None, saveTimer = None, globalState = [],
                 timers = [], clock = 2000, nextHandle = 2, inflight = 1,
                 written = [Some (dataJson sampleData), None],
                 saved = [dataJson sampleData, dataJson sampleData]\<rparr>"
    unfolding importRace_def sampleWorld_def by (rule import_during_update(2) [OF rt])
  show ?thesis
    unfolding pre race i1 i2 using rt ne by (simp add: exportToJson_def load_def getProp_def)
qed

end
